theory Spec2Isabelle
  imports Main
begin

section \<open>The PostgresController of postgres\_contoller.py\<close>

text \<open>
  The module wraps one psycopg2 connection. Everything it does is a sequence of calls
  into psycopg2, \<open>datetime.now\<close> and \<open>logger.warning\<close>, so the embedding takes those
  as a parameter (a \<open>runtime\<close>: one function per library call, over a world \<open>'w\<close> that
  stands for the database server, the network and the clock) and translates the
  methods of the class over an explicit state: the object's attributes, the world, the
  list of the calls issued so far (into psycopg2, the clock and \<open>str.join\<close>), each
  with how it ended, and the messages handed to the logger.
  An exception is a value: every method returns \<open>exn + result\<close> together with the
  state it leaves behind, so the attributes mutated before a raise stay mutated.
\<close>

subsection \<open>Data\<close>

type_synonym handle = nat  \<comment> \<open>a psycopg2 connection object\<close>
type_synonym cur = nat     \<comment> \<open>a psycopg2 cursor object\<close>

text \<open>The attributes set by \<open>__init__\<close>.\<close>

record PostgresController =
  host :: "string + int"
  port :: int
  user :: string
  password :: string
  database :: string
  conn :: "handle option"
  is_reconnect :: bool
  reconnect_number :: int

text \<open>
  An exception raised by the library carries the library's own value \<open>'e\<close>. The two
  others are raised by Python itself: a \<open>TypeError\<close> by iterating
  \<open>cursor.description\<close> when it is \<open>None\<close> and by \<open>str.join\<close> over items that
  are not all \<open>str\<close>, an \<open>AttributeError\<close> by \<open>with None\<close>.
\<close>

datatype 'e exn = DriverError 'e | TypeError | AttributeError

text \<open>
  A column label of a DataFrame. pandas takes any hashable value as a label, and
  numbers the columns of a frame built without names 0, 1, 2 and so on; the class
  never checks what it is given. \<open>IntLabel\<close> stands for every label that is not a
  \<open>str\<close>.
\<close>

datatype label = StrLabel string | IntLabel int

text \<open>
  The calls the class makes into psycopg2, \<open>datetime.now\<close> and \<open>str.join\<close>, and
  how each one ended. \<open>Join columns\<close> is \<open>', '.join(columns)\<close>; \<open>Now t\<close> is a
  call of \<open>datetime.now()\<close> that read \<open>t\<close> microseconds.
\<close>

datatype 'v call =
    Connect
  | Enter handle
  | Cursor handle
  | CurExecute cur string
  | Description cur
  | Fetchall cur
  | Join "label list"
  | ExecuteValues cur string "'v list list" nat
  | Close cur
  | Commit handle
  | Rollback handle
  | Now int

datatype 'e outcome = Raised "'e exn" | Opened handle | Done

text \<open>
  The library. \<open>rt_closed h w\<close> is \<open>h.closed != 0\<close>; \<open>rt_description\<close> gives the
  first component of every entry of \<open>cursor.description\<close>, or \<open>None\<close>;
  \<open>rt_enter\<close>, \<open>rt_commit\<close> and \<open>rt_rollback\<close> are what the connection's context
  manager runs, \<open>rt_cursor_close\<close> what the cursor's context manager runs on exit;
  \<open>rt_now\<close> reads the clock in microseconds. \<open>rt_upper\<close> is Python's
  \<open>str.upper\<close>, which follows the case mapping of Unicode.
\<close>

record ('w, 'e, 'v) runtime =
  rt_connect :: "(string + int) \<Rightarrow> int \<Rightarrow> string \<Rightarrow> string \<Rightarrow> string
                  \<Rightarrow> 'w \<Rightarrow> ('e + handle) \<times> 'w"
  rt_closed :: "handle \<Rightarrow> 'w \<Rightarrow> bool"
  rt_enter :: "handle \<Rightarrow> 'w \<Rightarrow> 'e option \<times> 'w"
  rt_cursor :: "handle \<Rightarrow> 'w \<Rightarrow> ('e + cur) \<times> 'w"
  rt_execute :: "cur \<Rightarrow> string \<Rightarrow> 'w \<Rightarrow> 'e option \<times> 'w"
  rt_description :: "cur \<Rightarrow> 'w \<Rightarrow> string list option"
  rt_fetchall :: "cur \<Rightarrow> 'w \<Rightarrow> ('e + 'v list list) \<times> 'w"
  rt_execute_values :: "cur \<Rightarrow> string \<Rightarrow> 'v list list \<Rightarrow> nat \<Rightarrow> 'w \<Rightarrow> 'e option \<times> 'w"
  rt_cursor_close :: "cur \<Rightarrow> 'w \<Rightarrow> 'e option \<times> 'w"
  rt_commit :: "handle \<Rightarrow> 'w \<Rightarrow> 'e option \<times> 'w"
  rt_rollback :: "handle \<Rightarrow> 'w \<Rightarrow> 'e option \<times> 'w"
  rt_now :: "'w \<Rightarrow> int \<times> 'w"
  rt_upper :: "string \<Rightarrow> string"

record ('w, 'e, 'v) state =
  self :: PostgresController
  world :: 'w
  calls :: "('v call \<times> 'e outcome) list"
  logged :: "string list"

text \<open>A pandas DataFrame, as far as the class reads it: \<open>df.columns\<close> and \<open>df.values\<close>.\<close>

record 'v DataFrame =
  df_columns :: "label list"
  df_values :: "'v list list"

subsection \<open>Sequencing, library calls and the two context managers\<close>

definition bind ::
  "('s \<Rightarrow> ('x + 'a) \<times> 's) \<Rightarrow> ('a \<Rightarrow> 's \<Rightarrow> ('x + 'b) \<times> 's) \<Rightarrow> 's \<Rightarrow> ('x + 'b) \<times> 's" where
  "bind m f s = (case m s of (Inl e, s') \<Rightarrow> (Inl e, s') | (Inr a, s') \<Rightarrow> f a s')"

definition emit ::
  "'v call \<Rightarrow> 'e outcome \<Rightarrow> 'w \<Rightarrow> ('w, 'e, 'v) state \<Rightarrow> ('w, 'e, 'v) state" where
  "emit c oc w s = s\<lparr>world := w, calls := calls s @ [(c, oc)]\<rparr>"

text \<open>A library call that returns nothing, and one that returns a value.\<close>

definition call_unit ::
  "'v call \<Rightarrow> ('w \<Rightarrow> 'e option \<times> 'w) \<Rightarrow> ('w, 'e, 'v) state
     \<Rightarrow> ('e exn + unit) \<times> ('w, 'e, 'v) state" where
  "call_unit c f s =
     (case f (world s) of
        (Some e, w) \<Rightarrow> (Inl (DriverError e), emit c (Raised (DriverError e)) w s)
      | (None, w) \<Rightarrow> (Inr (), emit c Done w s))"

definition call_val ::
  "'v call \<Rightarrow> ('w \<Rightarrow> ('e + 'a) \<times> 'w) \<Rightarrow> ('w, 'e, 'v) state
     \<Rightarrow> ('e exn + 'a) \<times> ('w, 'e, 'v) state" where
  "call_val c f s =
     (case f (world s) of
        (Inl e, w) \<Rightarrow> (Inl (DriverError e), emit c (Raised (DriverError e)) w s)
      | (Inr a, w) \<Rightarrow> (Inr a, emit c Done w s))"

text \<open>
  \<open>with connection as conn: body\<close>. psycopg2 commits when the body ends normally and
  rolls back when it raises; an exception raised by the commit or the rollback is the
  one that leaves the block. \<open>with None\<close> raises before anything is called.
\<close>

definition with_conn ::
  "('w, 'e, 'v) runtime \<Rightarrow> handle option
     \<Rightarrow> (handle \<Rightarrow> ('w, 'e, 'v) state \<Rightarrow> ('e exn + 'a) \<times> ('w, 'e, 'v) state)
     \<Rightarrow> ('w, 'e, 'v) state \<Rightarrow> ('e exn + 'a) \<times> ('w, 'e, 'v) state" where
  "with_conn d ho body s =
     (case ho of
        None \<Rightarrow> (Inl AttributeError, s)
      | Some h \<Rightarrow>
          (case call_unit (Enter h) (rt_enter d h) s of
             (Inl e, s1) \<Rightarrow> (Inl e, s1)
           | (Inr _, s1) \<Rightarrow>
               (case body h s1 of
                  (Inr a, s2) \<Rightarrow>
                    (case call_unit (Commit h) (rt_commit d h) s2 of
                       (Inl e, s3) \<Rightarrow> (Inl e, s3)
                     | (Inr _, s3) \<Rightarrow> (Inr a, s3))
                | (Inl e, s2) \<Rightarrow>
                    (case call_unit (Rollback h) (rt_rollback d h) s2 of
                       (Inl e', s3) \<Rightarrow> (Inl e', s3)
                     | (Inr _, s3) \<Rightarrow> (Inl e, s3)))))"

text \<open>
  \<open>with conn.cursor() as cursor: body\<close>. The cursor is closed on every way out of the
  body; an exception raised by the close is the one that leaves the block.
\<close>

definition with_cursor ::
  "('w, 'e, 'v) runtime \<Rightarrow> handle
     \<Rightarrow> (cur \<Rightarrow> ('w, 'e, 'v) state \<Rightarrow> ('e exn + 'a) \<times> ('w, 'e, 'v) state)
     \<Rightarrow> ('w, 'e, 'v) state \<Rightarrow> ('e exn + 'a) \<times> ('w, 'e, 'v) state" where
  "with_cursor d h body s =
     (case call_val (Cursor h) (rt_cursor d h) s of
        (Inl e, s1) \<Rightarrow> (Inl e, s1)
      | (Inr k, s1) \<Rightarrow>
          (case body k s1 of
             (r, s2) \<Rightarrow>
               (case call_unit (Close k) (rt_cursor_close d k) s2 of
                  (Inl e', s3) \<Rightarrow> (Inl e', s3)
                | (Inr _, s3) \<Rightarrow> (r, s3))))"

text \<open>\<open>[desc[0] for desc in cursor.description]\<close>: iterating \<open>None\<close> raises.\<close>

definition description_names ::
  "('w, 'e, 'v) runtime \<Rightarrow> cur \<Rightarrow> ('w, 'e, 'v) state
     \<Rightarrow> ('e exn + string list) \<times> ('w, 'e, 'v) state" where
  "description_names d k s =
     (case rt_description d k (world s) of
        None \<Rightarrow> (Inl TypeError, emit (Description k) (Raised TypeError) (world s) s)
      | Some cols \<Rightarrow> (Inr cols, emit (Description k) Done (world s) s))"

subsection \<open>The methods of the class\<close>

text \<open>\<open>__init__\<close>\<close>

definition init ::
  "(string + int) \<Rightarrow> int \<Rightarrow> string \<Rightarrow> string \<Rightarrow> string \<Rightarrow> PostgresController" where
  "init h p u pw db =
     \<lparr>host = h, port = p, user = u, password = pw, database = db,
      conn = None, is_reconnect = False, reconnect_number = 0\<rparr>"

text \<open>\<open>_connect\<close>: the attribute is assigned only when \<open>psycopg2.connect\<close> returns.\<close>

definition connect ::
  "('w, 'e, 'v) runtime \<Rightarrow> ('w, 'e, 'v) state \<Rightarrow> ('e exn + unit) \<times> ('w, 'e, 'v) state" where
  "connect d s =
     (case rt_connect d (host (self s)) (port (self s)) (database (self s))
             (user (self s)) (password (self s)) (world s) of
        (Inl e, w) \<Rightarrow> (Inl (DriverError e), emit Connect (Raised (DriverError e)) w s)
      | (Inr h, w) \<Rightarrow>
          (Inr (), emit Connect (Opened h) w (s\<lparr>self := (self s)\<lparr>conn := Some h\<rparr>\<rparr>)))"

text \<open>\<open>_connection_is_closed\<close>\<close>

definition connection_is_closed ::
  "('w, 'e, 'v) runtime \<Rightarrow> ('w, 'e, 'v) state \<Rightarrow> bool" where
  "connection_is_closed d s =
     (case conn (self s) of None \<Rightarrow> True | Some h \<Rightarrow> rt_closed d h (world s))"

text \<open>\<open>_check_and_reconnect\<close>\<close>

definition check_and_reconnect ::
  "('w, 'e, 'v) runtime \<Rightarrow> ('w, 'e, 'v) state \<Rightarrow> ('e exn + unit) \<times> ('w, 'e, 'v) state" where
  "check_and_reconnect d s =
     (if connection_is_closed d s then
        connect d
          (if is_reconnect (self s)
           then s\<lparr>self := (self s)\<lparr>reconnect_number := reconnect_number (self s) + 1\<rparr>\<rparr>
           else s\<lparr>self := (self s)\<lparr>is_reconnect := True\<rparr>\<rparr>)
      else (Inr (), s))"

text \<open>\<open>select_with_columns\<close>\<close>

definition select_with_columns ::
  "('w, 'e, 'v) runtime \<Rightarrow> string \<Rightarrow> ('w, 'e, 'v) state
     \<Rightarrow> ('e exn + 'v list list \<times> string list) \<times> ('w, 'e, 'v) state" where
  "select_with_columns d query =
     bind (check_and_reconnect d) (\<lambda>_ s.
       with_conn d (conn (self s)) (\<lambda>h.
         bind (with_cursor d h (\<lambda>k.
                 bind (call_unit (CurExecute k query) (rt_execute d k query)) (\<lambda>_.
                 bind (description_names d k) (\<lambda>columns.
                 bind (call_val (Fetchall k) (rt_fetchall d k)) (\<lambda>rows.
                 Pair (Inr (rows, columns)))))))
           (\<lambda>(rows, columns). Pair (Inr (map (\<lambda>row. row) rows, columns)))) s)"

text \<open>\<open>select\<close>\<close>

definition select ::
  "('w, 'e, 'v) runtime \<Rightarrow> string \<Rightarrow> ('w, 'e, 'v) state
     \<Rightarrow> ('e exn + 'v list list) \<times> ('w, 'e, 'v) state" where
  "select d query =
     bind (select_with_columns d query) (\<lambda>(rows, _). Pair (Inr rows))"

text \<open>\<open>execute\<close>\<close>

definition execute ::
  "('w, 'e, 'v) runtime \<Rightarrow> string \<Rightarrow> ('w, 'e, 'v) state
     \<Rightarrow> ('e exn + unit) \<times> ('w, 'e, 'v) state" where
  "execute d query =
     bind (check_and_reconnect d) (\<lambda>_ s.
       with_conn d (conn (self s)) (\<lambda>h.
         with_cursor d h (\<lambda>k.
           call_unit (CurExecute k query) (rt_execute d k query))) s)"

text \<open>\<open>_split_to_rows_columns\<close>\<close>

definition split_to_rows_columns :: "'v DataFrame \<Rightarrow> label list \<times> 'v list list" where
  "split_to_rows_columns df = (df_columns df, map (\<lambda>row. row) (df_values df))"

subsection \<open>Text\<close>

text \<open>
  Text is a list of 8-bit characters: a Python \<open>str\<close> is read as its UTF-8 bytes, so a
  character outside ASCII is a run of bytes from 128 up.
\<close>

text \<open>\<open>sep.join(xs)\<close>\<close>

fun join :: "string \<Rightarrow> string list \<Rightarrow> string" where
  "join sep [] = []"
| "join sep [x] = x"
| "join sep (x # y # ys) = x @ sep @ join sep (y # ys)"

text \<open>
  \<open>str.join\<close> takes items that are all \<open>str\<close>: \<open>strs columns\<close> is the labels as
  texts, or \<open>None\<close> when one of them is not a \<open>str\<close>.
\<close>

fun strs :: "label list \<Rightarrow> string list option" where
  "strs [] = Some []"
| "strs (StrLabel x # ls) = map_option ((#) x) (strs ls)"
| "strs (IntLabel i # ls) = None"

text \<open>
  \<open>str(n)\<close> for an integer: decimal digits, a minus sign when negative.
  \<open>digit k\<close> is the character of the decimal digit \<open>k\<close>, \<open>k < 10\<close>.
\<close>

definition digit :: "nat \<Rightarrow> char" where
  "digit k =
     (if k = 0 then CHR ''0'' else if k = 1 then CHR ''1'' else if k = 2 then CHR ''2''
      else if k = 3 then CHR ''3'' else if k = 4 then CHR ''4'' else if k = 5 then CHR ''5''
      else if k = 6 then CHR ''6'' else if k = 7 then CHR ''7'' else if k = 8 then CHR ''8''
      else CHR ''9'')"

fun str_nat :: "nat \<Rightarrow> string" where
  "str_nat n = (if n < 10 then [digit n] else str_nat (n div 10) @ [digit (n mod 10)])"

definition str_int :: "int \<Rightarrow> string" where
  "str_int i = (if i < 0 then CHR ''-'' # str_nat (nat (- i)) else str_nat (nat i))"

text \<open>
  The format \<open>_d\<close> of a non-negative integer: the decimal digits in groups of three
  from the right, separated by underscores.
\<close>

fun format_underscore_d :: "nat \<Rightarrow> string" where
  "format_underscore_d n =
     (if n < 1000 then str_nat n
      else format_underscore_d (n div 1000) @ ''_'' @
           [digit (n mod 1000 div 100), digit (n mod 100 div 10), digit (n mod 10)])"

text \<open>
  \<open>timedelta.seconds\<close> of a difference of \<open>us\<close> microseconds: a timedelta is kept as
  days, seconds within the day and microseconds within the second.
\<close>

definition timedelta_seconds :: "int \<Rightarrow> int" where
  "timedelta_seconds us = us mod 86400000000 div 1000000"

subsection \<open>The bulk insert\<close>

text \<open>\<open>datetime.now()\<close> and \<open>logger.warning(msg)\<close>\<close>

definition now ::
  "('w, 'e, 'v) runtime \<Rightarrow> ('w, 'e, 'v) state \<Rightarrow> ('e exn + int) \<times> ('w, 'e, 'v) state" where
  "now d s = (case rt_now d (world s) of (t, w) \<Rightarrow> (Inr t, emit (Now t) Done w s))"

definition warning ::
  "string \<Rightarrow> ('w, 'e, 'v) state \<Rightarrow> ('e exn + unit) \<times> ('w, 'e, 'v) state" where
  "warning msg s = (Inr (), s\<lparr>logged := logged s @ [msg]\<rparr>)"

text \<open>
  \<open>', '.join(columns)\<close>: a \<open>TypeError\<close> when a label is not a \<open>str\<close>, the labels
  with \<open>, \<close> between them otherwise.
\<close>

definition join_columns ::
  "label list \<Rightarrow> ('w, 'e, 'v) state \<Rightarrow> ('e exn + string) \<times> ('w, 'e, 'v) state" where
  "join_columns columns s =
     (case strs columns of
        None \<Rightarrow> (Inl TypeError, emit (Join columns) (Raised TypeError) (world s) s)
      | Some names \<Rightarrow> (Inr (join '', '' names), emit (Join columns) Done (world s) s))"

text \<open>
  The three texts that \<open>insert_dataframe\<close> builds with f-strings; \<open>joined\<close> is what
  \<open>', '.join(columns)\<close> returned.
\<close>

definition insert_query :: "string \<Rightarrow> string \<Rightarrow> string \<Rightarrow> string" where
  "insert_query table_schema table_name joined =
     ''INSERT INTO '' @ table_schema @ ''.'' @ table_name @
     '' ('' @ joined @ '') VALUES %s''"

definition inserted_message ::
  "('w, 'e, 'v) runtime \<Rightarrow> string \<Rightarrow> nat \<Rightarrow> int \<Rightarrow> string" where
  "inserted_message d table_name n duration =
     ''Data inserted in table: '' @ [CHR 0x27] @ rt_upper d table_name @ [CHR 0x27] @
     [CHR 0x0A] @ format_underscore_d n @ '' rows inserted'' @
     [CHR 0x0A] @ ''Time: '' @ str_int (timedelta_seconds duration) @ '' seconds''"

definition finished_message :: "int \<Rightarrow> string" where
  "finished_message total_duration =
     ''Pandas job is finished. Total time: '' @
     str_int (timedelta_seconds total_duration) @ '' seconds''"

text \<open>\<open>insert_dataframe\<close>; \<open>table_schema = None\<close> is the call that omits the argument.\<close>

definition insert_dataframe ::
  "('w, 'e, 'v) runtime \<Rightarrow> 'v DataFrame \<Rightarrow> string \<Rightarrow> string option
     \<Rightarrow> ('w, 'e, 'v) state \<Rightarrow> ('e exn + unit) \<times> ('w, 'e, 'v) state" where
  "insert_dataframe d df table_name table_schema =
     bind (check_and_reconnect d) (\<lambda>_.
     case split_to_rows_columns df of (columns, rows) \<Rightarrow>
     bind (now d) (\<lambda>start s.
       with_conn d (conn (self s)) (\<lambda>h.
         with_cursor d h (\<lambda>k.
           bind (join_columns columns) (\<lambda>joined.
           let query = insert_query (case table_schema of None \<Rightarrow> ''public'' | Some x \<Rightarrow> x)
                         table_name joined
           in bind (call_unit (ExecuteValues k query rows 50000)
                      (rt_execute_values d k query rows 50000)) (\<lambda>_.
              bind (now d) (\<lambda>t1.
              bind (warning (inserted_message d table_name (length rows) (t1 - start))) (\<lambda>_.
              bind (now d) (\<lambda>t2.
              warning (finished_message (t2 - start))))))))) s))"

subsection \<open>One call of the public interface\<close>

datatype 'v operation =
    Select string
  | SelectWithColumns string
  | Execute string
  | InsertDataframe "'v DataFrame" string "string option"

datatype 'v result = Rows "'v list list" | RowsColumns "'v list list" "string list" | Nothing

definition run ::
  "('w, 'e, 'v) runtime \<Rightarrow> 'v operation \<Rightarrow> ('w, 'e, 'v) state
     \<Rightarrow> ('e exn + 'v result) \<times> ('w, 'e, 'v) state" where
  "run d op =
     (case op of
        Select q \<Rightarrow> bind (select d q) (\<lambda>rows. Pair (Inr (Rows rows)))
      | SelectWithColumns q \<Rightarrow>
          bind (select_with_columns d q) (\<lambda>(rows, columns). Pair (Inr (RowsColumns rows columns)))
      | Execute q \<Rightarrow> bind (execute d q) (\<lambda>_. Pair (Inr Nothing))
      | InsertDataframe df t sch \<Rightarrow>
          bind (insert_dataframe d df t sch) (\<lambda>_. Pair (Inr Nothing)))"

text \<open>What a call added to the list of calls, and the connection attempts in it.\<close>

definition issued :: "('w, 'e, 'v) state \<Rightarrow> ('w, 'e, 'v) state \<Rightarrow> ('v call \<times> 'e outcome) list" where
  "issued s s' = drop (length (calls s)) (calls s')"

definition connect_attempts :: "('v call \<times> 'e outcome) list \<Rightarrow> nat" where
  "connect_attempts tr = length (filter (\<lambda>ev. fst ev = Connect) tr)"


section \<open>Serialising a nested value\<close>









subsection \<open>JSON text\<close>


















section \<open>What a call leaves behind\<close>

text \<open>
  The list of calls is read through a few projections: the exceptions raised,
  in order; the handles returned by \<open>psycopg2.connect\<close>; the batches handed to
  \<open>execute_values\<close>, each with its statement, its rows and its page size.
\<close>

fun raised :: "('v call \<times> 'e outcome) list \<Rightarrow> 'e exn list" where
  "raised [] = []"
| "raised ((c, Raised e) # tr) = e # raised tr"
| "raised ((c, Opened h) # tr) = raised tr"
| "raised ((c, Done) # tr) = raised tr"

fun opened :: "('v call \<times> 'e outcome) list \<Rightarrow> handle list" where
  "opened [] = []"
| "opened ((Connect, Opened h) # tr) = h # opened tr"
| "opened (ev # tr) = opened tr"

fun batches :: "('v call \<times> 'e outcome) list \<Rightarrow> (string \<times> 'v list list \<times> nat) list" where
  "batches [] = []"
| "batches ((ExecuteValues k q rows n, oc) # tr) = (q, rows, n) # batches tr"
| "batches (ev # tr) = batches tr"

text \<open>
  \<open>surfaces r tr\<close>: the result \<open>r\<close> of a call is an exception exactly when a
  call of \<open>tr\<close> raised, and then it is the last exception raised (the cursor's
  close and the connection's rollback run after a failure, and an exception of theirs
  replaces the one in flight, as Python's \<open>with\<close> does).
\<close>

definition surfaces :: "'e exn + 'a \<Rightarrow> ('v call \<times> 'e outcome) list \<Rightarrow> bool" where
  "surfaces r tr =
     (case r of Inl e \<Rightarrow> raised tr \<noteq> [] \<and> last (raised tr) = e | Inr _ \<Rightarrow> raised tr = [])"

text \<open>
  \<open>rolled_back r tr\<close>: when the call ends in an exception no commit went through,
  and a transaction that was entered was answered by a rollback, unless the exception
  is the one of the commit itself.
\<close>

definition rolled_back :: "'e exn + 'a \<Rightarrow> ('v call \<times> 'e outcome) list \<Rightarrow> bool" where
  "rolled_back r tr \<longleftrightarrow>
     (isl r \<longrightarrow>
        (\<forall>h. (Commit h, Done) \<notin> set tr) \<and>
        (\<forall>h. (Enter h, Done) \<in> set tr \<longrightarrow>
           (\<exists>oc. (Rollback h, oc) \<in> set tr) \<or> (\<exists>e. (Commit h, Raised e) \<in> set tr)))"

subsection \<open>What is asked of the library\<close>

text \<open>
  \<open>stable d R\<close>: the relation \<open>R\<close> between two worlds is a preorder that every
  library call respects, a commit only when it fails. \<open>commit_stable\<close> adds the
  commits that succeed.
\<close>

definition stable :: "('w, 'e, 'v) runtime \<Rightarrow> ('w \<Rightarrow> 'w \<Rightarrow> bool) \<Rightarrow> bool" where
  "stable d R \<longleftrightarrow>
     (\<forall>w. R w w) \<and> (\<forall>a b c. R a b \<longrightarrow> R b c \<longrightarrow> R a c) \<and>
     (\<forall>h p db u pw w. R w (snd (rt_connect d h p db u pw w))) \<and>
     (\<forall>h w. R w (snd (rt_enter d h w))) \<and>
     (\<forall>h w. R w (snd (rt_cursor d h w))) \<and>
     (\<forall>k q w. R w (snd (rt_execute d k q w))) \<and>
     (\<forall>k w. R w (snd (rt_fetchall d k w))) \<and>
     (\<forall>k q rows n w. R w (snd (rt_execute_values d k q rows n w))) \<and>
     (\<forall>k w. R w (snd (rt_cursor_close d k w))) \<and>
     (\<forall>h w. R w (snd (rt_rollback d h w))) \<and>
     (\<forall>h w. fst (rt_commit d h w) \<noteq> None \<longrightarrow> R w (snd (rt_commit d h w))) \<and>
     (\<forall>w. R w (snd (rt_now d w)))"

definition commit_stable :: "('w, 'e, 'v) runtime \<Rightarrow> ('w \<Rightarrow> 'w \<Rightarrow> bool) \<Rightarrow> bool" where
  "commit_stable d R \<longleftrightarrow> (\<forall>h w. R w (snd (rt_commit d h w)))"

text \<open>
  A transactional library: what \<open>obs\<close> observes of the database changes only when a
  commit succeeds.
\<close>

definition transactional :: "('w, 'e, 'v) runtime \<Rightarrow> ('w \<Rightarrow> 'o) \<Rightarrow> bool" where
  "transactional d obs \<longleftrightarrow> stable d (\<lambda>w w'. obs w' = obs w)"



text \<open>
  A connection that reports closed never reports open again, whatever is called.
\<close>

definition keeps_closed :: "('w, 'e, 'v) runtime \<Rightarrow> 'w \<Rightarrow> 'w \<Rightarrow> bool" where
  "keeps_closed d w w' \<longleftrightarrow> (\<forall>h. rt_closed d h w \<longrightarrow> rt_closed d h w')"

definition closed_is_final :: "('w, 'e, 'v) runtime \<Rightarrow> bool" where
  "closed_is_final d \<longleftrightarrow> stable d (keeps_closed d) \<and> commit_stable d (keeps_closed d)"

subsection \<open>Two properties of program fragments\<close>

text \<open>
  \<open>inner R f\<close> holds of the code inside the two \<open>with\<close> blocks: it leaves the
  attributes alone, moves the world along \<open>R\<close>, and issues only calls other than
  connect, enter, commit and rollback, the result being as \<open>surfaces\<close> says.
  \<open>scoped d R f\<close> holds of a whole \<open>with self.conn\<close> block run on an object
  that has a connection.
\<close>

fun inner_call :: "'v call \<Rightarrow> bool" where
  "inner_call Connect = False"
| "inner_call (Enter h) = False"
| "inner_call (Commit h) = False"
| "inner_call (Rollback h) = False"
| "inner_call _ = True"

definition plain :: "('v call \<times> 'e outcome) list \<Rightarrow> bool" where
  "plain tr = list_all (\<lambda>ev. inner_call (fst ev)) tr"

definition inner ::
  "('w \<Rightarrow> 'w \<Rightarrow> bool) \<Rightarrow> (('w, 'e, 'v) state \<Rightarrow> ('e exn + 'a) \<times> ('w, 'e, 'v) state) \<Rightarrow> bool" where
  "inner R f \<longleftrightarrow>
     (\<forall>s r s'. f s = (r, s') \<longrightarrow>
        self s' = self s \<and> R (world s) (world s') \<and>
        (\<exists>tr. calls s' = calls s @ tr \<and> plain tr \<and> surfaces r tr))"

definition scoped ::
  "('w, 'e, 'v) runtime \<Rightarrow> ('w \<Rightarrow> 'w \<Rightarrow> bool)
     \<Rightarrow> (('w, 'e, 'v) state \<Rightarrow> ('e exn + 'a) \<times> ('w, 'e, 'v) state) \<Rightarrow> bool" where
  "scoped d R f \<longleftrightarrow>
     (\<forall>s r s'. conn (self s) \<noteq> None \<longrightarrow> f s = (r, s') \<longrightarrow>
        self s' = self s \<and>
        (isl r \<or> commit_stable d R \<longrightarrow> R (world s) (world s')) \<and>
        (\<exists>tr. calls s' = calls s @ tr \<and> connect_attempts tr = 0 \<and> surfaces r tr \<and>
              rolled_back r tr))"

subsection \<open>Reachable states\<close>

text \<open>
  A state is reachable when it is a freshly constructed object, or follows a reachable
  state by one call of the interface, or by a change \<open>E\<close> of the world between two
  calls (the server or the network closing the connection).
\<close>

definition fresh :: "PostgresController \<Rightarrow> 'w \<Rightarrow> ('w, 'e, 'v) state" where
  "fresh c w = \<lparr>self = c, world = w, calls = [], logged = []\<rparr>"

inductive reachable ::
  "('w, 'e, 'v) runtime \<Rightarrow> ('w \<Rightarrow> 'w \<Rightarrow> bool) \<Rightarrow> ('w, 'e, 'v) state \<Rightarrow> bool"
  for d :: "('w, 'e, 'v) runtime" and E :: "'w \<Rightarrow> 'w \<Rightarrow> bool" where
  created: "reachable d E (fresh (init h p u pw db) w)"
| called: "reachable d E s \<Longrightarrow> run d op s = (r, s') \<Longrightarrow> reachable d E s'"
| drifted: "reachable d E s \<Longrightarrow> E (world s) w \<Longrightarrow> reachable d E (s\<lparr>world := w\<rparr>)"

subsection \<open>queryRows as the specification words it\<close>

text \<open>
  The specification describes \<open>queryRows\<close> as \<open>query\<close> with the column names
  discarded; this is that description, to be compared with \<open>select\<close>.
\<close>

definition query_rows ::
  "('w, 'e, 'v) runtime \<Rightarrow> string \<Rightarrow> ('w, 'e, 'v) state
     \<Rightarrow> ('e exn + 'v list list) \<times> ('w, 'e, 'v) state" where
  "query_rows d statement s =
     (case select_with_columns d statement s of
        (Inl e, s') \<Rightarrow> (Inl e, s')
      | (Inr (rows, columnNames), s') \<Rightarrow> (Inr rows, s'))"

subsection \<open>A small runtime to run the model on\<close>

text \<open>
  One table with a row count, rows staged by the open transaction, connection handles
  numbered from 0, the handles the server has dropped, and a clock that advances by
  1.5 seconds at every reading. Connecting succeeds for the database \<open>shop\<close> only;
  the only statement the server accepts is \<open>SELECT 1 AS x\<close>, and the only bulk
  insert the one into \<open>public.events (a, b)\<close>. Its \<open>rt_upper\<close> maps the letters
  a to z and leaves every other byte, which is what \<open>str.upper\<close> does on ASCII text;
  the runs below upper-case no other text.
\<close>

definition ascii_upper_char :: "char \<Rightarrow> char" where
  "ascii_upper_char c =
     (if 97 \<le> (of_char c :: nat) \<and> (of_char c :: nat) \<le> 122
      then char_of ((of_char c :: nat) - 32) else c)"

definition ascii_upper :: "string \<Rightarrow> string" where
  "ascii_upper s = map ascii_upper_char s"

record demo_world =
  table_rows :: nat
  staged :: nat
  next_handle :: nat
  dead :: "handle list"
  clock :: int

definition demo :: "(demo_world, string, int) runtime" where
  "demo =
     \<lparr>rt_connect = (\<lambda>h p db u pw w.
        if db = ''shop'' then (Inr (next_handle w), w\<lparr>next_handle := next_handle w + 1\<rparr>)
        else (Inl ''database does not exist'', w)),
      rt_closed = (\<lambda>h w. h \<in> set (dead w)),
      rt_enter = (\<lambda>h w. (None, w)),
      rt_cursor = (\<lambda>h w. (Inr 0, w)),
      rt_execute = (\<lambda>k q w.
        if q = ''SELECT 1 AS x'' then (None, w) else (Some ''syntax error'', w)),
      rt_description = (\<lambda>k w. Some [''x'']),
      rt_fetchall = (\<lambda>k w. (Inr [[1]], w)),
      rt_execute_values = (\<lambda>k q rows n w.
        if q = ''INSERT INTO public.events (a, b) VALUES %s''
        then (None, w\<lparr>staged := staged w + length rows\<rparr>)
        else (Some ''undefined column'', w\<lparr>staged := staged w + 1\<rparr>)),
      rt_cursor_close = (\<lambda>k w. (None, w)),
      rt_commit = (\<lambda>h w. (None, w\<lparr>table_rows := table_rows w + staged w, staged := 0\<rparr>)),
      rt_rollback = (\<lambda>h w. (None, w\<lparr>staged := 0\<rparr>)),
      rt_now = (\<lambda>w. (clock w, w\<lparr>clock := clock w + 1500000\<rparr>)),
      rt_upper = ascii_upper\<rparr>"

definition demo_world0 :: demo_world where
  "demo_world0 = \<lparr>table_rows = 7, staged = 0, next_handle = 0, dead = [], clock = 0\<rparr>"

definition demo_fresh :: "(demo_world, string, int) state" where
  "demo_fresh = fresh (init (Inl ''localhost'') 5432 ''app'' ''secret'' ''shop'') demo_world0"

definition demo_connected :: "(demo_world, string, int) state" where
  "demo_connected = snd (run demo (Select ''SELECT 1 AS x'') demo_fresh)"

definition demo_dropped :: "(demo_world, string, int) state" where
  "demo_dropped = demo_connected\<lparr>world := (world demo_connected)\<lparr>dead := [0]\<rparr>\<rparr>"

definition demo_reconnected :: "(demo_world, string, int) state" where
  "demo_reconnected = snd (run demo (Execute ''SELECT 1 AS x'') demo_dropped)"

definition demo_unreachable :: "(demo_world, string, int) state" where
  "demo_unreachable =
     fresh (init (Inl ''localhost'') 5432 ''app'' ''secret'' ''nowhere'') demo_world0"

definition demo_frame :: "label list \<Rightarrow> nat \<Rightarrow> int DataFrame" where
  "demo_frame columns n = \<lparr>df_columns = columns, df_values = replicate n [1, 2]\<rparr>"

definition demo_rejected :: "(demo_world, string, int) state" where
  "demo_rejected =
     snd (run demo (InsertDataframe (demo_frame [StrLabel ''a'', StrLabel ''c''] 2)
            ''events'' None) demo_fresh)"

definition demo_loaded :: "(demo_world, string, int) state" where
  "demo_loaded =
     snd (insert_dataframe demo (demo_frame [StrLabel ''a'', StrLabel ''b''] 120000)
            ''events'' None demo_fresh)"

text \<open>A frame built without column names, whose labels are 0 and 1.\<close>

definition demo_unnamed :: "(demo_world, string, int) state" where
  "demo_unnamed =
     snd (insert_dataframe demo (demo_frame [IntLabel 0, IntLabel 1] 2)
            ''events'' None demo_fresh)"

text \<open>Three calls in a row on an object whose database does not exist.\<close>

definition demo_gave_up :: "(demo_world, string, int) state" where
  "demo_gave_up =
     snd (run demo (Select ''SELECT 1 AS x'')
       (snd (run demo (Select ''SELECT 1 AS x'')
         (snd (run demo (Select ''SELECT 1 AS x'') demo_unreachable)))))"

text \<open>
  The same server, behind a connection that is lost while a statement runs: the
  rollback that follows the failure of the statement fails too.
\<close>

definition flaky :: "(demo_world, string, int) runtime" where
  "flaky = demo\<lparr>rt_rollback := (\<lambda>h w. (Some ''connection already closed'', w))\<rparr>"

definition demo_lost :: "(demo_world, string, int) state" where
  "demo_lost = snd (run flaky (Execute ''SELEC 1'') demo_connected)"

section \<open>Lemmas\<close>

subsection \<open>Sequencing and the trace\<close>

lemma bind_bind: "bind (bind m f) g = bind m (\<lambda>a. bind (f a) g)"
  by (rule ext) (simp add: bind_def split: prod.splits sum.splits)

lemma issued_append: "calls s' = calls s @ tr \<Longrightarrow> issued s s' = tr"
  by (simp add: issued_def)

lemma connect_attempts_simps [simp]:
  "connect_attempts [] = 0"
  "connect_attempts (x # xs) = (if fst x = Connect then 1 else 0) + connect_attempts xs"
  "connect_attempts (xs @ ys) = connect_attempts xs + connect_attempts ys"
  by (simp_all add: connect_attempts_def)

lemma raised_append [simp]: "raised (xs @ ys) = raised xs @ raised ys"
  by (induction xs rule: raised.induct) simp_all

lemma stable_refl: "stable d R \<Longrightarrow> R w w"
  by (simp add: stable_def)

lemma stable_trans: "stable d R \<Longrightarrow> R a b \<Longrightarrow> R b c \<Longrightarrow> R a c"
  unfolding stable_def by meson

lemma plain_simps [simp]:
  "plain []"
  "plain (x # xs) \<longleftrightarrow> inner_call (fst x) \<and> plain xs"
  "plain (xs @ ys) \<longleftrightarrow> plain xs \<and> plain ys"
  by (simp_all add: plain_def)

lemma plain_connect_attempts: "plain tr \<Longrightarrow> connect_attempts tr = 0"
  by (induction tr) auto

lemma plain_not_outer:
  "plain tr \<Longrightarrow> (Commit h, oc) \<notin> set tr \<and> (Enter h, oc) \<notin> set tr \<and> (Rollback h, oc) \<notin> set tr"
  by (induction tr) auto

lemma innerI:
  "(\<And>s r s'. f s = (r, s') \<Longrightarrow>
      self s' = self s \<and> R (world s) (world s') \<and>
      (\<exists>tr. calls s' = calls s @ tr \<and> plain tr \<and> surfaces r tr))
   \<Longrightarrow> inner R f"
  by (simp add: inner_def)

lemma innerE:
  assumes "inner R f" and "f s = (r, s')"
  obtains tr where "self s' = self s" and "R (world s) (world s')"
    and "calls s' = calls s @ tr" and "plain tr" and "surfaces r tr"
  using assms unfolding inner_def by blast

lemma inner_call_unit:
  assumes "inner_call c" and "\<And>w. R w (snd (f w))"
  shows "inner R (call_unit c f)"
proof (rule innerI)
  fix s r s'
  assume run: "call_unit c f s = (r, s')"
  obtain x w where f: "f (world s) = (x, w)" by (cases "f (world s)")
  with assms(2) [of "world s"] have R: "R (world s) w" by simp
  show "self s' = self s \<and> R (world s) (world s') \<and>
      (\<exists>tr. calls s' = calls s @ tr \<and> plain tr \<and> surfaces r tr)"
  proof (cases x)
    case None
    with run f have "r = Inr ()" "s' = emit c Done w s" by (simp_all add: call_unit_def)
    with R assms(1) show ?thesis by (simp add: emit_def surfaces_def)
  next
    case (Some e)
    with run f have "r = Inl (DriverError e)" "s' = emit c (Raised (DriverError e)) w s"
      by (simp_all add: call_unit_def)
    with R assms(1) show ?thesis by (simp add: emit_def surfaces_def)
  qed
qed

lemma inner_call_val:
  assumes "inner_call c" and "\<And>w. R w (snd (f w))"
  shows "inner R (call_val c f)"
proof (rule innerI)
  fix s r s'
  assume run: "call_val c f s = (r, s')"
  obtain x w where f: "f (world s) = (x, w)" by (cases "f (world s)")
  with assms(2) [of "world s"] have R: "R (world s) w" by simp
  show "self s' = self s \<and> R (world s) (world s') \<and>
      (\<exists>tr. calls s' = calls s @ tr \<and> plain tr \<and> surfaces r tr)"
  proof (cases x)
    case (Inr a)
    with run f have "r = Inr a" "s' = emit c Done w s" by (simp_all add: call_val_def)
    with R assms(1) show ?thesis by (simp add: emit_def surfaces_def)
  next
    case (Inl e)
    with run f have "r = Inl (DriverError e)" "s' = emit c (Raised (DriverError e)) w s"
      by (simp_all add: call_val_def)
    with R assms(1) show ?thesis by (simp add: emit_def surfaces_def)
  qed
qed

lemma inner_description_names:
  assumes "\<And>w. R w w"
  shows "inner R (description_names d k)"
proof (rule innerI)
  fix s r s'
  assume run: "description_names d k s = (r, s')"
  show "self s' = self s \<and> R (world s) (world s') \<and>
      (\<exists>tr. calls s' = calls s @ tr \<and> plain tr \<and> surfaces r tr)"
  proof (cases "rt_description d k (world s)")
    case None
    with run have "r = Inl TypeError" "s' = emit (Description k) (Raised TypeError) (world s) s"
      by (simp_all add: description_names_def)
    with assms show ?thesis by (simp add: emit_def surfaces_def)
  next
    case (Some cols)
    with run have "r = Inr cols" "s' = emit (Description k) Done (world s) s"
      by (simp_all add: description_names_def)
    with assms show ?thesis by (simp add: emit_def surfaces_def)
  qed
qed

lemma inner_join_columns:
  assumes "\<And>w. R w w"
  shows "inner R (join_columns columns)"
proof (rule innerI)
  fix s :: "('a, 'b, 'c) state" and r s'
  assume run: "join_columns columns s = (r, s')"
  show "self s' = self s \<and> R (world s) (world s') \<and>
      (\<exists>tr. calls s' = calls s @ tr \<and> plain tr \<and> surfaces r tr)"
  proof (cases "strs columns")
    case None
    with run have "r = Inl TypeError" "s' = emit (Join columns) (Raised TypeError) (world s) s"
      by (simp_all add: join_columns_def)
    with assms show ?thesis by (simp add: emit_def surfaces_def)
  next
    case (Some names)
    with run have "r = Inr (join '', '' names)" "s' = emit (Join columns) Done (world s) s"
      by (simp_all add: join_columns_def)
    with assms show ?thesis by (simp add: emit_def surfaces_def)
  qed
qed

lemma inner_now:
  assumes "\<And>w. R w (snd (rt_now d w))"
  shows "inner R (now d)"
proof (rule innerI)
  fix s r s'
  assume run: "now d s = (r, s')"
  obtain t w where f: "rt_now d (world s) = (t, w)" by (cases "rt_now d (world s)")
  with assms [of "world s"] have R: "R (world s) w" by simp
  from run f have "r = Inr t" "s' = emit (Now t) Done w s" by (simp_all add: now_def)
  with R show "self s' = self s \<and> R (world s) (world s') \<and>
      (\<exists>tr. calls s' = calls s @ tr \<and> plain tr \<and> surfaces r tr)"
    by (simp add: emit_def surfaces_def)
qed

lemma inner_warning:
  assumes "\<And>w. R w w"
  shows "inner R (warning msg)"
  using assms by (intro innerI) (auto simp: warning_def surfaces_def)

lemma inner_Pair:
  assumes "\<And>w. R w w"
  shows "inner R (Pair (Inr x))"
  using assms by (intro innerI) (auto simp: surfaces_def)

lemma inner_bind:
  assumes trans: "\<And>a b c. R a b \<Longrightarrow> R b c \<Longrightarrow> R a c"
    and m: "inner R m" and f: "\<And>a. inner R (f a)"
  shows "inner R (bind m f)"
proof (rule innerI)
  fix s r s'
  assume run: "bind m f s = (r, s')"
  obtain r1 s1 where ms: "m s = (r1, s1)" by (cases "m s")
  from innerE [OF m ms] obtain tr1
    where 1: "self s1 = self s" "R (world s) (world s1)" "calls s1 = calls s @ tr1"
      "plain tr1" "surfaces r1 tr1" by blast
  show "self s' = self s \<and> R (world s) (world s') \<and>
      (\<exists>tr. calls s' = calls s @ tr \<and> plain tr \<and> surfaces r tr)"
  proof (cases r1)
    case (Inl e)
    with run ms have "s' = s1" "r = Inl e" by (simp_all add: bind_def)
    with 1 Inl show ?thesis by (auto simp: surfaces_def)
  next
    case (Inr a)
    with run ms have "f a s1 = (r, s')" by (simp add: bind_def)
    from innerE [OF f this] obtain tr2
      where 2: "self s' = self s1" "R (world s1) (world s')" "calls s' = calls s1 @ tr2"
        "plain tr2" "surfaces r tr2" by blast
    from 1 Inr have none: "raised tr1 = []" by (simp add: surfaces_def)
    have "calls s' = calls s @ (tr1 @ tr2)" using 1 2 by simp
    moreover have "plain (tr1 @ tr2)" using 1 2 by simp
    moreover have "surfaces r (tr1 @ tr2)" using 2 none by (cases r) (simp_all add: surfaces_def)
    moreover have "R (world s) (world s')" using 1 2 trans by blast
    ultimately show ?thesis using 1 2 by metis
  qed
qed

lemma inner_with_cursor:
  assumes R: "stable d R" and body: "\<And>k. inner R (body k)"
  shows "inner R (with_cursor d h body)"
proof (rule innerI)
  fix s r s'
  assume run: "with_cursor d h body s = (r, s')"
  note trans = stable_trans [OF R]
  have cur: "inner R (call_val (Cursor h) (rt_cursor d h) :: _ \<Rightarrow> (_ + cur) \<times> ('a, 'b, 'c) state)"
    using R by (intro inner_call_val) (simp_all add: stable_def)
  have close: "inner R (call_unit (Close k) (rt_cursor_close d k) :: _ \<Rightarrow> _ \<times> ('a, 'b, 'c) state)" for k
    using R by (intro inner_call_unit) (simp_all add: stable_def)
  obtain r1 s1 where c1: "call_val (Cursor h) (rt_cursor d h) s = (r1, s1)"
    by (cases "call_val (Cursor h) (rt_cursor d h) s")
  from innerE [OF cur c1] obtain tr1
    where 1: "self s1 = self s" "R (world s) (world s1)" "calls s1 = calls s @ tr1"
      "plain tr1" "surfaces r1 tr1" by blast
  show "self s' = self s \<and> R (world s) (world s') \<and>
      (\<exists>tr. calls s' = calls s @ tr \<and> plain tr \<and> surfaces r tr)"
  proof (cases r1)
    case (Inl e)
    with run c1 have "s' = s1" "r = Inl e" by (simp_all add: with_cursor_def)
    with 1 Inl show ?thesis by (auto simp: surfaces_def)
  next
    case (Inr k)
    obtain r2 s2 where c2: "body k s1 = (r2, s2)" by (cases "body k s1")
    obtain r3 s3 where c3: "call_unit (Close k) (rt_cursor_close d k) s2 = (r3, s3)"
      by (cases "call_unit (Close k) (rt_cursor_close d k) s2")
    from innerE [OF body c2] obtain tr2
      where 2: "self s2 = self s1" "R (world s1) (world s2)" "calls s2 = calls s1 @ tr2"
        "plain tr2" "surfaces r2 tr2" by blast
    from innerE [OF close c3] obtain tr3
      where 3: "self s3 = self s2" "R (world s2) (world s3)" "calls s3 = calls s2 @ tr3"
        "plain tr3" "surfaces r3 tr3" by blast
    from run c1 c2 c3 Inr have s': "s' = s3"
      and r: "r = (case r3 of Inl e' \<Rightarrow> Inl e' | Inr _ \<Rightarrow> r2)"
      by (auto simp: with_cursor_def split: sum.splits)
    from 1 Inr have none: "raised tr1 = []" by (simp add: surfaces_def)
    have "calls s' = calls s @ (tr1 @ tr2 @ tr3)" using 1 2 3 s' by simp
    moreover have "plain (tr1 @ tr2 @ tr3)" using 1 2 3 by simp
    moreover have "surfaces r (tr1 @ tr2 @ tr3)"
      using 2 3 none r by (cases r3; cases r2) (simp_all add: surfaces_def)
    moreover have "R (world s) (world s')" using 1 2 3 s' trans by blast
    moreover have "self s' = self s" using 1 2 3 s' by simp
    ultimately show ?thesis by metis
  qed
qed

lemma call_unit_cases:
  assumes "call_unit c f s = (r, s')"
  obtains (ok) w where "f (world s) = (None, w)" "r = Inr ()" "s' = emit c Done w s"
  | (fail) e w where "f (world s) = (Some e, w)" "r = Inl (DriverError e)"
      "s' = emit c (Raised (DriverError e)) w s"
  using assms by (auto simp: call_unit_def split: prod.splits option.splits)

lemma call_unit_world:
  assumes "\<And>w. R w (snd (f w))" and "call_unit c f s = (r, s')"
  shows "R (world s) (world s')"
  using assms(2)
proof (cases rule: call_unit_cases)
  case (ok w)
  with assms(1) [of "world s"] show ?thesis by (simp add: emit_def)
next
  case (fail e w)
  with assms(1) [of "world s"] show ?thesis by (simp add: emit_def)
qed

lemma scopedI:
  "(\<And>s r s'. conn (self s) \<noteq> None \<Longrightarrow> f s = (r, s') \<Longrightarrow>
      self s' = self s \<and>
      (isl r \<or> commit_stable d R \<longrightarrow> R (world s) (world s')) \<and>
      (\<exists>tr. calls s' = calls s @ tr \<and> connect_attempts tr = 0 \<and> surfaces r tr \<and>
            rolled_back r tr))
   \<Longrightarrow> scoped d R f"
  unfolding scoped_def by blast

lemma scopedE:
  assumes "scoped d R f" and "conn (self s) \<noteq> None" and "f s = (r, s')"
  obtains tr where "self s' = self s"
    and "isl r \<or> commit_stable d R \<Longrightarrow> R (world s) (world s')"
    and "calls s' = calls s @ tr" and "connect_attempts tr = 0" and "surfaces r tr"
    and "rolled_back r tr"
  using assms unfolding scoped_def by blast

lemma scoped_goalI:
  assumes "self s' = self s"
    and "isl r \<or> commit_stable d R \<Longrightarrow> R (world s) (world s')"
    and "calls s' = calls s @ tr" and "connect_attempts tr = 0"
    and "surfaces r tr" and "rolled_back r tr"
  shows "self s' = self s \<and>
      (isl r \<or> commit_stable d R \<longrightarrow> R (world s) (world s')) \<and>
      (\<exists>tr. calls s' = calls s @ tr \<and> connect_attempts tr = 0 \<and> surfaces r tr \<and>
            rolled_back r tr)"
  using assms by blast

lemma scoped_with_conn:
  assumes R: "stable d R" and body: "\<And>h. inner R (body h)"
  shows "scoped d R (\<lambda>s. with_conn d (conn (self s)) body s)"
proof (rule scopedI)
  fix s r s'
  assume some: "conn (self s) \<noteq> None" and run: "with_conn d (conn (self s)) body s = (r, s')"
  note trans = stable_trans [OF R]
  from some obtain h where h: "conn (self s) = Some h" by blast
  obtain r1 s1 where c1: "call_unit (Enter h) (rt_enter d h) s = (r1, s1)"
    by (cases "call_unit (Enter h) (rt_enter d h) s")
  have R1: "R (world s) (world s1)"
    by (rule call_unit_world [OF _ c1]) (use R in \<open>simp add: stable_def\<close>)
  from c1 show "self s' = self s \<and>
      (isl r \<or> commit_stable d R \<longrightarrow> R (world s) (world s')) \<and>
      (\<exists>tr. calls s' = calls s @ tr \<and> connect_attempts tr = 0 \<and> surfaces r tr \<and>
            rolled_back r tr)"
  proof (cases rule: call_unit_cases)
    case (fail e w)
    with run h c1 have res: "r = Inl (DriverError e)" "s' = s1" by (simp_all add: with_conn_def)
    have cs1: "calls s1 = calls s @ [(Enter h, Raised (DriverError e))]" "self s1 = self s"
      using fail by (simp_all add: emit_def)
    show ?thesis
    proof (rule scoped_goalI)
      show "self s' = self s" using cs1 res by simp
      show "R (world s) (world s')" using R1 res by simp
      show "calls s' = calls s @ [(Enter h, Raised (DriverError e))]" using cs1 res by simp
      show "connect_attempts [(Enter h, Raised (DriverError e)) :: 'c call \<times> 'b outcome] = 0"
        by simp
      show "surfaces r [(Enter h, Raised (DriverError e)) :: 'c call \<times> 'b outcome]"
        using res by (simp add: surfaces_def)
      show "rolled_back r [(Enter h, Raised (DriverError e)) :: 'c call \<times> 'b outcome]"
        by (simp add: rolled_back_def)
    qed
  next
    case (ok w)
    have cs1: "calls s1 = calls s @ [(Enter h, Done)]" "self s1 = self s"
      using ok by (simp_all add: emit_def)
    obtain r2 s2 where c2: "body h s1 = (r2, s2)" by (cases "body h s1")
    from innerE [OF body c2] obtain tr2
      where 2: "self s2 = self s1" "R (world s1) (world s2)" "calls s2 = calls s1 @ tr2"
        "plain tr2" "surfaces r2 tr2" by blast
    have no: "(Commit h', oc) \<notin> set tr2" "(Enter h', oc) \<notin> set tr2"
      "(Rollback h', oc) \<notin> set tr2" "connect_attempts tr2 = 0" for h' oc
      using plain_not_outer [OF 2(4)] plain_connect_attempts [OF 2(4)] by simp_all
    show ?thesis
    proof (cases r2)
      case (Inr a)
      obtain r3 s3 where c3: "call_unit (Commit h) (rt_commit d h) s2 = (r3, s3)"
        by (cases "call_unit (Commit h) (rt_commit d h) s2")
      from 2 Inr have none: "raised tr2 = []" by (simp add: surfaces_def)
      from c3 show ?thesis
      proof (cases rule: call_unit_cases)
        case (fail e w3)
        with run h c1 \<open>r1 = Inr ()\<close> c2 Inr c3 have res: "r = Inl (DriverError e)" "s' = s3"
          by (simp_all add: with_conn_def)
        have "fst (rt_commit d h (world s2)) \<noteq> None \<longrightarrow>
            R (world s2) (snd (rt_commit d h (world s2)))"
          using R unfolding stable_def by blast
        with fail have R3: "R (world s2) (world s3)" by (simp add: emit_def)
        show ?thesis
        proof (rule scoped_goalI)
          show "self s' = self s" using fail cs1 2 res by (simp add: emit_def)
          show "R (world s) (world s')" using R1 2(2) R3 res trans by blast
          show "calls s' = calls s @ ((Enter h, Done) # tr2 @ [(Commit h, Raised (DriverError e))])"
            using fail cs1 2 res by (simp add: emit_def)
          show "connect_attempts ((Enter h, Done) # tr2 @ [(Commit h, Raised (DriverError e))]) = 0"
            using no by simp
          show "surfaces r ((Enter h, Done) # tr2 @ [(Commit h, Raised (DriverError e))])"
            using none res by (simp add: surfaces_def)
          show "rolled_back r ((Enter h, Done) # tr2 @ [(Commit h, Raised (DriverError e))])"
            using no res by (simp add: rolled_back_def)
        qed
      next
        case (ok w3)
        with run h c1 \<open>r1 = Inr ()\<close> c2 Inr c3 have res: "r = Inr a" "s' = s3"
          by (simp_all add: with_conn_def)
        have "commit_stable d R \<Longrightarrow> R (world s2) (snd (rt_commit d h (world s2)))"
          unfolding commit_stable_def by blast
        with ok have R3: "commit_stable d R \<Longrightarrow> R (world s2) (world s3)"
          by (simp add: emit_def)
        show ?thesis
        proof (rule scoped_goalI)
          show "self s' = self s" using ok cs1 2 res by (simp add: emit_def)
          show "R (world s) (world s')" if "isl r \<or> commit_stable d R"
            using that R1 2(2) R3 res trans by auto
          show "calls s' = calls s @ ((Enter h, Done) # tr2 @ [(Commit h, Done)])"
            using ok cs1 2 res by (simp add: emit_def)
          show "connect_attempts ((Enter h, Done) # tr2 @ [(Commit h, Done)]) = 0"
            using no by simp
          show "surfaces r ((Enter h, Done) # tr2 @ [(Commit h, Done)])"
            using none res by (simp add: surfaces_def)
          show "rolled_back r ((Enter h, Done) # tr2 @ [(Commit h, Done)])"
            using res by (simp add: rolled_back_def)
        qed
      qed
    next
      case (Inl e2)
      obtain r3 s3 where c3: "call_unit (Rollback h) (rt_rollback d h) s2 = (r3, s3)"
        by (cases "call_unit (Rollback h) (rt_rollback d h) s2")
      from 2 Inl have some2: "raised tr2 \<noteq> []" "last (raised tr2) = e2"
        by (simp_all add: surfaces_def)
      have R3: "R (world s2) (world s3)"
        by (rule call_unit_world [OF _ c3]) (use R in \<open>simp add: stable_def\<close>)
      from run h c1 \<open>r1 = Inr ()\<close> c2 Inl c3 have s': "s' = s3"
        and r: "r = (case r3 of Inl e' \<Rightarrow> Inl e' | Inr _ \<Rightarrow> Inl e2)"
        by (simp_all add: with_conn_def split: sum.splits)
      from c3 obtain oc where cs3: "calls s3 = calls s2 @ [(Rollback h, oc)]" "self s3 = self s2"
        and oc: "(oc = Done \<and> r3 = Inr ()) \<or>
                 (\<exists>e. oc = Raised (DriverError e) \<and> r3 = Inl (DriverError e))"
        by (cases rule: call_unit_cases) (simp_all add: emit_def)
      show ?thesis
      proof (rule scoped_goalI)
        show "self s' = self s" using cs1 2 cs3 s' by simp
        show "R (world s) (world s')" using R1 2(2) R3 s' trans by blast
        show "calls s' = calls s @ ((Enter h, Done) # tr2 @ [(Rollback h, oc)])"
          using cs1 2 cs3 s' by simp
        show "connect_attempts ((Enter h, Done) # tr2 @ [(Rollback h, oc)]) = 0"
          using no by simp
        show "surfaces r ((Enter h, Done) # tr2 @ [(Rollback h, oc)])"
          using oc
        proof (elim disjE conjE exE)
          assume "oc = Done" "r3 = Inr ()"
          with some2 r show ?thesis by (simp add: surfaces_def)
        next
          fix e assume "oc = Raised (DriverError e)" "r3 = Inl (DriverError e)"
          with r show ?thesis by (simp add: surfaces_def)
        qed
        show "rolled_back r ((Enter h, Done) # tr2 @ [(Rollback h, oc)])"
          using no by (simp add: rolled_back_def)
      qed
    qed
  qed
qed

lemma scoped_bind_inner:
  assumes R: "stable d R" and m: "inner R m" and f: "\<And>a. scoped d R (f a)"
  shows "scoped d R (bind m f)"
proof (rule scopedI)
  fix s r s'
  assume some: "conn (self s) \<noteq> None" and run: "bind m f s = (r, s')"
  note trans = stable_trans [OF R]
  obtain r1 s1 where ms: "m s = (r1, s1)" by (cases "m s")
  from innerE [OF m ms] obtain tr1
    where 1: "self s1 = self s" "R (world s) (world s1)" "calls s1 = calls s @ tr1"
      "plain tr1" "surfaces r1 tr1" by blast
  note no = plain_not_outer [OF 1(4)] plain_connect_attempts [OF 1(4)]
  show "self s' = self s \<and>
      (isl r \<or> commit_stable d R \<longrightarrow> R (world s) (world s')) \<and>
      (\<exists>tr. calls s' = calls s @ tr \<and> connect_attempts tr = 0 \<and> surfaces r tr \<and>
            rolled_back r tr)"
  proof (cases r1)
    case (Inl e)
    with run ms have "s' = s1" "r = Inl e" by (simp_all add: bind_def)
    with 1 Inl no show ?thesis by (auto simp: surfaces_def rolled_back_def)
  next
    case (Inr a)
    with run ms have fa: "f a s1 = (r, s')" by (simp add: bind_def)
    from some 1 have "conn (self s1) \<noteq> None" by simp
    from scopedE [OF f this fa] obtain tr2
      where 2: "self s' = self s1" "isl r \<or> commit_stable d R \<Longrightarrow> R (world s1) (world s')"
        "calls s' = calls s1 @ tr2" "connect_attempts tr2 = 0" "surfaces r tr2" "rolled_back r tr2"
      by blast
    from 1 Inr have none: "raised tr1 = []" by (simp add: surfaces_def)
    have "calls s' = calls s @ (tr1 @ tr2)" using 1 2 by simp
    moreover have "connect_attempts (tr1 @ tr2) = 0" using no 2 by simp
    moreover have "surfaces r (tr1 @ tr2)" using 2 none by (cases r) (simp_all add: surfaces_def)
    moreover have "rolled_back r (tr1 @ tr2)" using 2(6) no unfolding rolled_back_def by auto
    moreover have "isl r \<or> commit_stable d R \<longrightarrow> R (world s) (world s')"
      using 1 2 trans by blast
    moreover have "self s' = self s" using 1 2 by simp
    ultimately show ?thesis by blast
  qed
qed

lemma scoped_bind_Pair:
  assumes m: "scoped d R m"
  shows "scoped d R (bind m (\<lambda>a. Pair (Inr (g a))))"
proof (rule scopedI)
  fix s r s'
  assume some: "conn (self s) \<noteq> None" and run: "bind m (\<lambda>a. Pair (Inr (g a))) s = (r, s')"
  obtain r1 s1 where ms: "m s = (r1, s1)" by (cases "m s")
  from scopedE [OF m some ms] obtain tr
    where t: "self s1 = self s" "isl r1 \<or> commit_stable d R \<Longrightarrow> R (world s) (world s1)"
      "calls s1 = calls s @ tr" "connect_attempts tr = 0" "surfaces r1 tr" "rolled_back r1 tr"
    by blast
  from run ms have s': "s' = s1" by (cases r1) (simp_all add: bind_def)
  from run ms have "isl r = isl r1" by (cases r1) (auto simp: bind_def)
  moreover from run ms t(5) have "surfaces r tr"
    by (cases r1) (auto simp: bind_def surfaces_def)
  moreover from run ms t(6) have "rolled_back r tr"
    by (cases r1) (auto simp: bind_def rolled_back_def)
  ultimately show "self s' = self s \<and>
      (isl r \<or> commit_stable d R \<longrightarrow> R (world s) (world s')) \<and>
      (\<exists>tr. calls s' = calls s @ tr \<and> connect_attempts tr = 0 \<and> surfaces r tr \<and>
            rolled_back r tr)"
    using t s' by auto
qed

lemma inner_case_prod: "(\<And>a b. inner R (f a b)) \<Longrightarrow> inner R (case p of (a, b) \<Rightarrow> f a b)"
  by (cases p) simp

lemma inner_seq: "stable d R \<Longrightarrow> inner R m \<Longrightarrow> (\<And>a. inner R (f a)) \<Longrightarrow> inner R (bind m f)"
  by (rule inner_bind [OF stable_trans])

lemma inner_return: "stable d R \<Longrightarrow> inner R (Pair (Inr x))"
  by (rule inner_Pair) (rule stable_refl)

lemma inner_execute: "stable d R \<Longrightarrow> inner R (call_unit (CurExecute k q) (rt_execute d k q))"
  by (rule inner_call_unit) (simp_all add: stable_def)

lemma inner_execute_values:
  "stable d R \<Longrightarrow>
     inner R (call_unit (ExecuteValues k q rows n) (rt_execute_values d k q rows n))"
  by (rule inner_call_unit) (simp_all add: stable_def)

lemma inner_fetchall: "stable d R \<Longrightarrow> inner R (call_val (Fetchall k) (rt_fetchall d k))"
  by (rule inner_call_val) (simp_all add: stable_def)

lemma inner_description: "stable d R \<Longrightarrow> inner R (description_names d k)"
  by (rule inner_description_names) (rule stable_refl)

lemma inner_join: "stable d R \<Longrightarrow> inner R (join_columns columns)"
  by (rule inner_join_columns) (rule stable_refl)

lemma inner_clock: "stable d R \<Longrightarrow> inner R (now d)"
  by (rule inner_now) (simp add: stable_def)

lemma inner_log: "stable d R \<Longrightarrow> inner R (warning msg)"
  by (rule inner_warning) (rule stable_refl)

lemma inner_intros:
  assumes "stable d R"
  shows "\<And>m f. inner R m \<Longrightarrow> (\<And>a. inner R (f a)) \<Longrightarrow> inner R (bind m f)"
    and "\<And>x. inner R (Pair (Inr x))"
    and "\<And>k q. inner R (call_unit (CurExecute k q) (rt_execute d k q))"
    and "\<And>k q rows n.
           inner R (call_unit (ExecuteValues k q rows n) (rt_execute_values d k q rows n))"
    and "\<And>k. inner R (call_val (Fetchall k) (rt_fetchall d k))"
    and "\<And>k. inner R (description_names d k)"
    and "\<And>columns. inner R (join_columns columns)"
    and "inner R (now d)"
    and "\<And>msg. inner R (warning msg)"
    and "\<And>h body. (\<And>k. inner R (body k)) \<Longrightarrow> inner R (with_cursor d h body)"
  using assms
  by (simp_all add: inner_seq inner_return inner_execute inner_execute_values inner_fetchall
      inner_description inner_join inner_clock inner_log inner_with_cursor)

lemma scoped_bind_Pair2:
  assumes "scoped d R m"
  shows "scoped d R (bind m (\<lambda>(a, b). Pair (Inr (g a b))))"
proof -
  have eq: "(\<lambda>(a, b). Pair (Inr (g a b))) = (\<lambda>p. Pair (Inr (g (fst p) (snd p))))"
    by (simp add: fun_eq_iff split_def)
  show ?thesis unfolding eq by (rule scoped_bind_Pair [OF assms])
qed

lemma scoped_select_with_columns:
  assumes R: "stable d R"
  shows "scoped d R (\<lambda>s. with_conn d (conn (self s)) (\<lambda>h.
         bind (with_cursor d h (\<lambda>k.
                 bind (call_unit (CurExecute k query) (rt_execute d k query)) (\<lambda>_.
                 bind (description_names d k) (\<lambda>columns.
                 bind (call_val (Fetchall k) (rt_fetchall d k)) (\<lambda>rows.
                 Pair (Inr (rows, columns)))))))
           (\<lambda>(rows, columns). Pair (Inr (map (\<lambda>row. row) rows, columns)))) s)"
  by (rule scoped_with_conn [OF R]) (intro inner_intros [OF R] inner_case_prod)

lemma scoped_execute:
  assumes R: "stable d R"
  shows "scoped d R (\<lambda>s. with_conn d (conn (self s)) (\<lambda>h.
         with_cursor d h (\<lambda>k.
           call_unit (CurExecute k query) (rt_execute d k query))) s)"
  by (rule scoped_with_conn [OF R]) (intro inner_intros [OF R] inner_case_prod)

lemma scoped_insert_dataframe:
  assumes R: "stable d R"
  shows "scoped d R (bind (now d) (\<lambda>start s.
       with_conn d (conn (self s)) (\<lambda>h.
         with_cursor d h (\<lambda>k.
              bind (join_columns columns) (\<lambda>joined.
              bind (call_unit (ExecuteValues k (query joined) rows 50000)
                      (rt_execute_values d k (query joined) rows 50000)) (\<lambda>_.
              bind (now d) (\<lambda>t1.
              bind (warning (m1 start t1)) (\<lambda>_.
              bind (now d) (\<lambda>t2.
              warning (m2 start t2)))))))) s))"
  by (intro scoped_bind_inner [OF R] inner_clock R scoped_with_conn [OF R]) (intro inner_intros [OF R] inner_case_prod)

lemma run_rest:
  obtains rest where "run d op = bind (check_and_reconnect d) rest"
    and "\<And>R u. stable d R \<Longrightarrow> scoped d R (rest u)"
proof (cases op)
  case (Select q)
  show ?thesis
  proof (rule that)
    show "run d op = bind (check_and_reconnect d) (\<lambda>u.
        bind (bind (\<lambda>s. with_conn d (conn (self s)) (\<lambda>h.
         bind (with_cursor d h (\<lambda>k.
                 bind (call_unit (CurExecute k q) (rt_execute d k q)) (\<lambda>_.
                 bind (description_names d k) (\<lambda>columns.
                 bind (call_val (Fetchall k) (rt_fetchall d k)) (\<lambda>rows.
                 Pair (Inr (rows, columns)))))))
           (\<lambda>(rows, columns). Pair (Inr (map (\<lambda>row. row) rows, columns)))) s)
         (\<lambda>(rows, _). Pair (Inr rows))) (\<lambda>rows. Pair (Inr (Rows rows))))"
      by (simp add: Select run_def select_def select_with_columns_def bind_bind)
  next
    fix R :: "'a \<Rightarrow> 'a \<Rightarrow> bool" and u :: unit
    assume "stable d R"
    then show "scoped d R (
        bind (bind (\<lambda>s. with_conn d (conn (self s)) (\<lambda>h.
         bind (with_cursor d h (\<lambda>k.
                 bind (call_unit (CurExecute k q) (rt_execute d k q)) (\<lambda>_.
                 bind (description_names d k) (\<lambda>columns.
                 bind (call_val (Fetchall k) (rt_fetchall d k)) (\<lambda>rows.
                 Pair (Inr (rows, columns)))))))
           (\<lambda>(rows, columns). Pair (Inr (map (\<lambda>row. row) rows, columns)))) s)
         (\<lambda>(rows, _). Pair (Inr rows))) (\<lambda>rows. Pair (Inr (Rows rows))))"
      by (intro scoped_bind_Pair scoped_bind_Pair2 scoped_select_with_columns)
  qed
next
  case (SelectWithColumns q)
  show ?thesis
  proof (rule that)
    show "run d op = bind (check_and_reconnect d) (\<lambda>u.
        bind (\<lambda>s. with_conn d (conn (self s)) (\<lambda>h.
         bind (with_cursor d h (\<lambda>k.
                 bind (call_unit (CurExecute k q) (rt_execute d k q)) (\<lambda>_.
                 bind (description_names d k) (\<lambda>columns.
                 bind (call_val (Fetchall k) (rt_fetchall d k)) (\<lambda>rows.
                 Pair (Inr (rows, columns)))))))
           (\<lambda>(rows, columns). Pair (Inr (map (\<lambda>row. row) rows, columns)))) s)
         (\<lambda>(rows, columns). Pair (Inr (RowsColumns rows columns))))"
      by (simp add: SelectWithColumns run_def select_with_columns_def bind_bind)
  next
    fix R :: "'a \<Rightarrow> 'a \<Rightarrow> bool" and u :: unit
    assume "stable d R"
    then show "scoped d R (
        bind (\<lambda>s. with_conn d (conn (self s)) (\<lambda>h.
         bind (with_cursor d h (\<lambda>k.
                 bind (call_unit (CurExecute k q) (rt_execute d k q)) (\<lambda>_.
                 bind (description_names d k) (\<lambda>columns.
                 bind (call_val (Fetchall k) (rt_fetchall d k)) (\<lambda>rows.
                 Pair (Inr (rows, columns)))))))
           (\<lambda>(rows, columns). Pair (Inr (map (\<lambda>row. row) rows, columns)))) s)
         (\<lambda>(rows, columns). Pair (Inr (RowsColumns rows columns))))"
      by (intro scoped_bind_Pair2 scoped_select_with_columns)
  qed
next
  case (Execute q)
  show ?thesis
  proof (rule that)
    show "run d op = bind (check_and_reconnect d) (\<lambda>u.
        bind (\<lambda>s. with_conn d (conn (self s)) (\<lambda>h.
         with_cursor d h (\<lambda>k.
           call_unit (CurExecute k q) (rt_execute d k q))) s)
         (\<lambda>_. Pair (Inr Nothing)))"
      by (simp add: Execute run_def execute_def bind_bind)
  next
    fix R :: "'a \<Rightarrow> 'a \<Rightarrow> bool" and u :: unit
    assume "stable d R"
    then show "scoped d R (
        bind (\<lambda>s. with_conn d (conn (self s)) (\<lambda>h.
         with_cursor d h (\<lambda>k.
           call_unit (CurExecute k q) (rt_execute d k q))) s)
         (\<lambda>_. Pair (Inr Nothing)))"
      by (intro scoped_bind_Pair scoped_execute)
  qed
next
  case (InsertDataframe df t sch)
  define query where "query = insert_query (case sch of None \<Rightarrow> ''public'' | Some x \<Rightarrow> x) t"
  define rows where "rows = map (\<lambda>row. row) (df_values df)"
  show ?thesis
  proof (rule that)
    show "run d op = bind (check_and_reconnect d) (\<lambda>u.
        bind (bind (now d) (\<lambda>start s.
       with_conn d (conn (self s)) (\<lambda>h.
         with_cursor d h (\<lambda>k.
              bind (join_columns (df_columns df)) (\<lambda>joined.
              bind (call_unit (ExecuteValues k (query joined) rows 50000)
                      (rt_execute_values d k (query joined) rows 50000)) (\<lambda>_.
              bind (now d) (\<lambda>t1.
              bind (warning (inserted_message d t (length rows) (t1 - start))) (\<lambda>_.
              bind (now d) (\<lambda>t2.
              warning (finished_message (t2 - start))))))))) s))
         (\<lambda>_. Pair (Inr Nothing)))"
      by (simp add: InsertDataframe run_def insert_dataframe_def bind_bind
          split_to_rows_columns_def query_def rows_def Let_def)
  next
    fix R :: "'a \<Rightarrow> 'a \<Rightarrow> bool" and u :: unit
    assume "stable d R"
    then show "scoped d R (
        bind (bind (now d) (\<lambda>start s.
       with_conn d (conn (self s)) (\<lambda>h.
         with_cursor d h (\<lambda>k.
              bind (join_columns (df_columns df)) (\<lambda>joined.
              bind (call_unit (ExecuteValues k (query joined) rows 50000)
                      (rt_execute_values d k (query joined) rows 50000)) (\<lambda>_.
              bind (now d) (\<lambda>t1.
              bind (warning (inserted_message d t (length rows) (t1 - start))) (\<lambda>_.
              bind (now d) (\<lambda>t2.
              warning (finished_message (t2 - start))))))))) s))
         (\<lambda>_. Pair (Inr Nothing)))"
      by (intro scoped_bind_Pair scoped_insert_dataframe)
  qed
qed

lemma check_and_reconnect_cases:
  assumes "check_and_reconnect d s = (r, s')"
  obtains (still_open) "\<not> connection_is_closed d s" "r = Inr ()" "s' = s"
  | (connect_failed) e where "connection_is_closed d s" "r = Inl (DriverError e)"
      "calls s' = calls s @ [(Connect, Raised (DriverError e))]"
      "conn (self s') = conn (self s)" "is_reconnect (self s')"
      "reconnect_number (self s') =
         reconnect_number (self s) + (if is_reconnect (self s) then 1 else 0)"
      "world s' = snd (rt_connect d (host (self s)) (port (self s)) (database (self s))
             (user (self s)) (password (self s)) (world s))"
      "logged s' = logged s"
  | (connected) h where "connection_is_closed d s" "r = Inr ()"
      "calls s' = calls s @ [(Connect, Opened h)]"
      "conn (self s') = Some h" "is_reconnect (self s')"
      "reconnect_number (self s') =
         reconnect_number (self s) + (if is_reconnect (self s) then 1 else 0)"
      "world s' = snd (rt_connect d (host (self s)) (port (self s)) (database (self s))
             (user (self s)) (password (self s)) (world s))"
      "logged s' = logged s"
proof (cases "connection_is_closed d s")
  case False
  with assms show ?thesis by (intro still_open) (simp_all add: check_and_reconnect_def)
next
  case True
  obtain x w where c: "rt_connect d (host (self s)) (port (self s)) (database (self s))
             (user (self s)) (password (self s)) (world s) = (x, w)"
    by (cases "rt_connect d (host (self s)) (port (self s)) (database (self s))
             (user (self s)) (password (self s)) (world s)")
  define s0 where "s0 = (if is_reconnect (self s)
             then s\<lparr>self := (self s)\<lparr>reconnect_number := reconnect_number (self s) + 1\<rparr>\<rparr>
             else s\<lparr>self := (self s)\<lparr>is_reconnect := True\<rparr>\<rparr>)"
  have s0: "host (self s0) = host (self s)" "port (self s0) = port (self s)"
    "database (self s0) = database (self s)" "user (self s0) = user (self s)"
    "password (self s0) = password (self s)" "world s0 = world s" "calls s0 = calls s"
    "logged s0 = logged s" "conn (self s0) = conn (self s)" "is_reconnect (self s0)"
    "reconnect_number (self s0) =
       reconnect_number (self s) + (if is_reconnect (self s) then 1 else 0)"
    by (simp_all add: s0_def)
  from assms True have run: "connect d s0 = (r, s')"
    by (simp add: check_and_reconnect_def s0_def)
  show ?thesis
  proof (cases x)
    case (Inl e)
    from run c Inl s0 have "r = Inl (DriverError e)"
      and "s' = emit Connect (Raised (DriverError e)) w s0"
      by (simp_all add: connect_def)
    with True c s0 show ?thesis by (intro connect_failed [of e]) (simp_all add: emit_def)
  next
    case (Inr h)
    from run c Inr s0 have "r = Inr ()"
      and "s' = emit Connect (Opened h) w (s0\<lparr>self := (self s0)\<lparr>conn := Some h\<rparr>\<rparr>)"
      by (simp_all add: connect_def)
    with True c s0 show ?thesis by (intro connected [of h]) (simp_all add: emit_def)
  qed
qed

lemma open_has_handle: "\<not> connection_is_closed d s \<Longrightarrow> conn (self s) \<noteq> None"
  by (cases "conn (self s)") (simp_all add: connection_is_closed_def)

lemma run_cases:
  assumes R: "stable d R" and run: "run d op s = (r, s')"
  obtains (still_open) tr where "\<not> connection_is_closed d s" "self s' = self s"
      "calls s' = calls s @ tr" "connect_attempts tr = 0" "surfaces r tr" "rolled_back r tr"
      "isl r \<or> commit_stable d R \<Longrightarrow> R (world s) (world s')"
  | (connect_failed) e where "connection_is_closed d s" "r = Inl (DriverError e)"
      "calls s' = calls s @ [(Connect, Raised (DriverError e))]"
      "conn (self s') = conn (self s)" "is_reconnect (self s')"
      "reconnect_number (self s') =
         reconnect_number (self s) + (if is_reconnect (self s) then 1 else 0)"
      "R (world s) (world s')"
  | (connected) h tr where "connection_is_closed d s"
      "calls s' = calls s @ (Connect, Opened h) # tr" "connect_attempts tr = 0"
      "conn (self s') = Some h" "is_reconnect (self s')"
      "reconnect_number (self s') =
         reconnect_number (self s) + (if is_reconnect (self s) then 1 else 0)"
      "surfaces r tr" "rolled_back r tr"
      "isl r \<or> commit_stable d R \<Longrightarrow> R (world s) (world s')"
proof -
  obtain rest where shape: "run d op = bind (check_and_reconnect d) rest"
    and rest: "\<And>R u. stable d R \<Longrightarrow> scoped d R (rest u)"
    by (rule run_rest [of d op]) blast
  obtain r1 s1 where c: "check_and_reconnect d s = (r1, s1)"
    by (cases "check_and_reconnect d s")
  have Rc: "R (world s) (snd (rt_connect d (host (self s)) (port (self s)) (database (self s))
             (user (self s)) (password (self s)) (world s)))"
    using R by (simp add: stable_def)
  from c show ?thesis
  proof (cases rule: check_and_reconnect_cases)
    case still_open
    with run shape c have "rest () s = (r, s')" by (simp add: bind_def)
    from scopedE [OF rest [OF R] open_has_handle [OF still_open(1)] this]
    show ?thesis using still_open(1) by (auto intro: that(1))
  next
    case (connect_failed e)
    with run shape c have "r = Inl (DriverError e)" "s' = s1" by (simp_all add: bind_def)
    with connect_failed Rc show ?thesis by (intro that(2) [of e]) simp_all
  next
    case (connected h)
    with run shape c have rs: "rest () s1 = (r, s')" by (simp add: bind_def)
    from connected have "conn (self s1) \<noteq> None" by simp
    from scopedE [OF rest [OF R] this rs] obtain tr
      where t: "self s' = self s1"
        "isl r \<or> commit_stable d R \<Longrightarrow> R (world s1) (world s')"
        "calls s' = calls s1 @ tr" "connect_attempts tr = 0" "surfaces r tr" "rolled_back r tr"
      by blast
    have "isl r \<or> commit_stable d R \<Longrightarrow> R (world s) (world s')"
      using t(2) Rc connected(7) stable_trans [OF R] by metis
    with connected t show ?thesis by (intro that(3) [of h tr]) simp_all
  qed
qed

lemma stable_trivial: "stable d (\<lambda>_ _. True)"
  by (simp add: stable_def)

lemma opened_append [simp]: "opened (xs @ ys) = opened xs @ opened ys"
  by (induction xs rule: opened.induct) simp_all

lemma opened_none: "connect_attempts tr = 0 \<Longrightarrow> opened tr = []"
  by (induction tr rule: opened.induct) (simp_all split: if_splits)

lemma batches_append [simp]: "batches (xs @ ys) = batches xs @ batches ys"
  by (induction xs rule: batches.induct) simp_all

lemma now_cases:
  assumes "now d s = (r, s')"
  obtains t w where "rt_now d (world s) = (t, w)" "r = Inr t" "s' = emit (Now t) Done w s"
  using assms by (auto simp: now_def split: prod.splits)

lemma call_val_cases:
  assumes "call_val c f s = (r, s')"
  obtains (ok) a w where "f (world s) = (Inr a, w)" "r = Inr a" "s' = emit c Done w s"
  | (fail) e w where "f (world s) = (Inl e, w)" "r = Inl (DriverError e)"
      "s' = emit c (Raised (DriverError e)) w s"
  using assms by (auto simp: call_val_def split: prod.splits sum.splits)

lemma with_cursor_cases:
  assumes "with_cursor d h body s = (r, s')"
  obtains (no_cursor) e where "r = Inl (DriverError e)"
      "calls s' = calls s @ [(Cursor h, Raised (DriverError e))]" "logged s' = logged s"
  | (cursor) k s1 r2 s2 oc where "calls s1 = calls s @ [(Cursor h, Done)]"
      "logged s1 = logged s" "body k s1 = (r2, s2)"
      "calls s' = calls s2 @ [(Close k, oc)]" "logged s' = logged s2"
      "oc = Done \<and> r = r2 \<or> (\<exists>e. oc = Raised (DriverError e) \<and> r = Inl (DriverError e))"
proof -
  obtain r1 s1 where c1: "call_val (Cursor h) (rt_cursor d h) s = (r1, s1)"
    by (cases "call_val (Cursor h) (rt_cursor d h) s")
  from c1 show ?thesis
  proof (cases rule: call_val_cases)
    case (fail e w)
    with assms c1 have "r = Inl (DriverError e)" "s' = s1" by (simp_all add: with_cursor_def)
    with fail show ?thesis by (intro no_cursor [of e]) (simp_all add: emit_def)
  next
    case (ok k w)
    obtain r2 s2 where c2: "body k s1 = (r2, s2)" by (cases "body k s1")
    obtain r3 s3 where c3: "call_unit (Close k) (rt_cursor_close d k) s2 = (r3, s3)"
      by (cases "call_unit (Close k) (rt_cursor_close d k) s2")
    from assms c1 \<open>r1 = Inr k\<close> c2 c3 have s': "s' = s3"
      and r: "r = (case r3 of Inl e' \<Rightarrow> Inl e' | Inr _ \<Rightarrow> r2)"
      by (simp_all add: with_cursor_def split: sum.splits)
    from c3 show ?thesis
    proof (cases rule: call_unit_cases)
      case (ok w3)
      with s' r c2 \<open>s1 = emit (Cursor h) Done w s\<close> show ?thesis
        by (intro cursor [of s1 k r2 s2 Done]) (simp_all add: emit_def)
    next
      case (fail e w3)
      with s' r c2 \<open>s1 = emit (Cursor h) Done w s\<close> show ?thesis
        by (intro cursor [of s1 k r2 s2 "Raised (DriverError e)"]) (simp_all add: emit_def)
    qed
  qed
qed

lemma with_conn_cases:
  assumes "with_conn d (Some h) body s = (r, s')"
  obtains (enter_failed) e where "r = Inl (DriverError e)"
      "calls s' = calls s @ [(Enter h, Raised (DriverError e))]" "logged s' = logged s"
  | (committed) s1 a s2 oc where "calls s1 = calls s @ [(Enter h, Done)]"
      "logged s1 = logged s" "body h s1 = (Inr a, s2)"
      "calls s' = calls s2 @ [(Commit h, oc)]" "logged s' = logged s2"
      "oc = Done \<and> r = Inr a \<or> (\<exists>e. oc = Raised (DriverError e) \<and> r = Inl (DriverError e))"
  | (rolled_back) s1 e2 s2 oc where "calls s1 = calls s @ [(Enter h, Done)]"
      "logged s1 = logged s" "body h s1 = (Inl e2, s2)"
      "calls s' = calls s2 @ [(Rollback h, oc)]" "logged s' = logged s2" "isl r"
proof -
  obtain r1 s1 where c1: "call_unit (Enter h) (rt_enter d h) s = (r1, s1)"
    by (cases "call_unit (Enter h) (rt_enter d h) s")
  from c1 show ?thesis
  proof (cases rule: call_unit_cases)
    case (fail e w)
    with assms c1 have "r = Inl (DriverError e)" "s' = s1" by (simp_all add: with_conn_def)
    with fail show ?thesis by (intro enter_failed [of e]) (simp_all add: emit_def)
  next
    case (ok w)
    obtain r2 s2 where c2: "body h s1 = (r2, s2)" by (cases "body h s1")
    show ?thesis
    proof (cases r2)
      case (Inr a)
      obtain r3 s3 where c3: "call_unit (Commit h) (rt_commit d h) s2 = (r3, s3)"
        by (cases "call_unit (Commit h) (rt_commit d h) s2")
      from assms c1 \<open>r1 = Inr ()\<close> c2 Inr c3 have s': "s' = s3"
        and r: "r = (case r3 of Inl e' \<Rightarrow> Inl e' | Inr _ \<Rightarrow> Inr a)"
        by (simp_all add: with_conn_def split: sum.splits)
      from c3 show ?thesis
      proof (cases rule: call_unit_cases)
        case (ok w3)
        with s' r c2 Inr \<open>s1 = emit (Enter h) Done w s\<close> show ?thesis
          by (intro committed [of s1 a s2 Done]) (simp_all add: emit_def)
      next
        case (fail e w3)
        with s' r c2 Inr \<open>s1 = emit (Enter h) Done w s\<close> show ?thesis
          by (intro committed [of s1 a s2 "Raised (DriverError e)"]) (simp_all add: emit_def)
      qed
    next
      case (Inl e2)
      obtain r3 s3 where c3: "call_unit (Rollback h) (rt_rollback d h) s2 = (r3, s3)"
        by (cases "call_unit (Rollback h) (rt_rollback d h) s2")
      from assms c1 \<open>r1 = Inr ()\<close> c2 Inl c3 have s': "s' = s3"
        and r: "r = (case r3 of Inl e' \<Rightarrow> Inl e' | Inr _ \<Rightarrow> Inl e2)"
        by (simp_all add: with_conn_def split: sum.splits)
      from c3 show ?thesis
      proof (cases rule: call_unit_cases)
        case (ok w3)
        with s' r c2 Inl \<open>s1 = emit (Enter h) Done w s\<close> show ?thesis
          by (intro rolled_back [of s1 e2 s2 Done]) (simp_all add: emit_def)
      next
        case (fail e w3)
        with s' r c2 Inl \<open>s1 = emit (Enter h) Done w s\<close> show ?thesis
          by (intro rolled_back [of s1 e2 s2 "Raised (DriverError e)"]) (simp_all add: emit_def)
      qed
    qed
  qed
qed

lemma insert_tail_cases:
  assumes "bind (call_unit (ExecuteValues k q rows n) (rt_execute_values d k q rows n)) (\<lambda>_.
           bind (now d) (\<lambda>t1.
           bind (warning (m1 t1)) (\<lambda>_.
           bind (now d) (\<lambda>t2.
           warning (m2 t2))))) s = (r, s')"
  obtains (batch_failed) e where "r = Inl (DriverError e)"
      "calls s' = calls s @ [(ExecuteValues k q rows n, Raised (DriverError e))]"
      "logged s' = logged s"
  | (inserted) t1 t2 where "r = Inr ()"
      "calls s' = calls s @ [(ExecuteValues k q rows n, Done), (Now t1, Done), (Now t2, Done)]"
      "logged s' = logged s @ [m1 t1, m2 t2]"
proof -
  obtain r1 s1 where c1: "call_unit (ExecuteValues k q rows n) (rt_execute_values d k q rows n) s = (r1, s1)"
    by (cases "call_unit (ExecuteValues k q rows n) (rt_execute_values d k q rows n) s")
  from c1 show ?thesis
  proof (cases rule: call_unit_cases)
    case (fail e w)
    with assms c1 have "r = Inl (DriverError e)" "s' = s1" by (simp_all add: bind_def)
    with fail show ?thesis by (intro batch_failed [of e]) (simp_all add: emit_def)
  next
    case (ok w)
    obtain r2 s2 where c2: "now d s1 = (r2, s2)" by (cases "now d s1")
    from c2 obtain t1 w2 where 2: "r2 = Inr t1" "s2 = emit (Now t1) Done w2 s1"
      by (rule now_cases)
    obtain r3 s3 where c3: "now d (s2\<lparr>logged := logged s2 @ [m1 t1]\<rparr>) = (r3, s3)"
      by (cases "now d (s2\<lparr>logged := logged s2 @ [m1 t1]\<rparr>)")
    from c3 obtain t2 w3 where 3: "r3 = Inr t2"
      "s3 = emit (Now t2) Done w3 (s2\<lparr>logged := logged s2 @ [m1 t1]\<rparr>)"
      by (rule now_cases)
    from assms c1 \<open>r1 = Inr ()\<close> c2 2(1) c3 3(1)
    have "r = Inr ()" "s' = s3\<lparr>logged := logged s3 @ [m2 t2]\<rparr>"
      by (simp_all add: bind_def warning_def)
    with ok 2 3 show ?thesis by (intro inserted [of t1 t2]) (simp_all add: emit_def)
  qed
qed

lemma insert_body_cases:
  assumes "bind (join_columns columns) (\<lambda>joined.
           bind (call_unit (ExecuteValues k (q joined) rows n)
                   (rt_execute_values d k (q joined) rows n)) (\<lambda>_.
           bind (now d) (\<lambda>t1.
           bind (warning (m1 t1)) (\<lambda>_.
           bind (now d) (\<lambda>t2.
           warning (m2 t2)))))) s = (r, s')"
  obtains (join_failed) "strs columns = None" "r = Inl TypeError"
      "calls s' = calls s @ [(Join columns, Raised TypeError)]" "logged s' = logged s"
  | (batch_failed) names e where "strs columns = Some names" "r = Inl (DriverError e)"
      "calls s' = calls s @
         [(Join columns, Done),
          (ExecuteValues k (q (join '', '' names)) rows n, Raised (DriverError e))]"
      "logged s' = logged s"
  | (inserted) names t1 t2 where "strs columns = Some names" "r = Inr ()"
      "calls s' = calls s @
         [(Join columns, Done), (ExecuteValues k (q (join '', '' names)) rows n, Done),
          (Now t1, Done), (Now t2, Done)]"
      "logged s' = logged s @ [m1 t1, m2 t2]"
proof (cases "strs columns")
  case None
  with assms have "r = Inl TypeError" "s' = emit (Join columns) (Raised TypeError) (world s) s"
    by (simp_all add: bind_def join_columns_def)
  with None show ?thesis by (intro join_failed) (simp_all add: emit_def)
next
  case (Some names)
  define s0 where "s0 = emit (Join columns) Done (world s) s"
  from assms Some
  have tail: "bind (call_unit (ExecuteValues k (q (join '', '' names)) rows n)
                   (rt_execute_values d k (q (join '', '' names)) rows n)) (\<lambda>_.
           bind (now d) (\<lambda>t1.
           bind (warning (m1 t1)) (\<lambda>_.
           bind (now d) (\<lambda>t2.
           warning (m2 t2))))) s0 = (r, s')"
    by (simp add: bind_def join_columns_def s0_def)
  from tail show ?thesis
  proof (cases rule: insert_tail_cases)
    case (batch_failed e)
    with Some show ?thesis by (intro that(2) [of names e]) (simp_all add: s0_def emit_def)
  next
    case (inserted t1 t2)
    with Some show ?thesis by (intro that(3) [of names t1 t2]) (simp_all add: s0_def emit_def)
  qed
qed

lemma insert_dataframe_unfold:
  "insert_dataframe d df t sch =
     bind (check_and_reconnect d) (\<lambda>_.
     bind (now d) (\<lambda>start s.
       with_conn d (conn (self s)) (\<lambda>h.
         with_cursor d h (\<lambda>k.
           bind (join_columns (df_columns df)) (\<lambda>joined.
           bind (call_unit
                   (ExecuteValues k
                      (insert_query (case sch of None \<Rightarrow> ''public'' | Some x \<Rightarrow> x) t joined)
                      (df_values df) 50000)
                   (rt_execute_values d k
                      (insert_query (case sch of None \<Rightarrow> ''public'' | Some x \<Rightarrow> x) t joined)
                      (df_values df) 50000)) (\<lambda>_.
              bind (now d) (\<lambda>t1.
              bind (warning (inserted_message d t (length (df_values df)) (t1 - start))) (\<lambda>_.
              bind (now d) (\<lambda>t2.
              warning (finished_message (t2 - start))))))))) s))"
  by (simp add: insert_dataframe_def split_to_rows_columns_def Let_def)

lemma transaction_cases:
  fixes d :: "('w, 'e, 'v) runtime" and s s' :: "('w, 'e, 'v) state"
  assumes h: "conn (self s) = Some h"
    and run: "bind (now d) (\<lambda>start s.
       with_conn d (conn (self s)) (\<lambda>h.
         with_cursor d h (\<lambda>k.
           bind (join_columns columns) (\<lambda>joined.
           bind (call_unit (ExecuteValues k (q joined) rows n)
                   (rt_execute_values d k (q joined) rows n)) (\<lambda>_.
              bind (now d) (\<lambda>t1.
              bind (warning (m1 start t1)) (\<lambda>_.
              bind (now d) (\<lambda>t2.
              warning (m2 start t2)))))))) s) s = (r, s')"
  obtains (not_inserted) tr where "isl r" "logged s' = logged s" "calls s' = calls s @ tr"
      "batches tr = []" "\<forall>h. (Cursor h, Done) \<notin> set tr"
  | (join_failed) start k oc oc' where "isl r" "logged s' = logged s"
      "strs columns = None"
      "calls s' = calls s @
         [(Now start, Done), (Enter h, Done), (Cursor h, Done),
          (Join columns, Raised TypeError), (Close k, oc), (Rollback h, oc')]"
  | (batch_failed) start k names e oc oc' where "isl r" "logged s' = logged s"
      "strs columns = Some names"
      "calls s' = calls s @
         [(Now start, Done), (Enter h, Done), (Cursor h, Done), (Join columns, Done),
          (ExecuteValues k (q (join '', '' names)) rows n, Raised (DriverError e)),
          (Close k, oc), (Rollback h, oc')]"
  | (inserted) start k names t1 t2 oc c oc' where
      "strs columns = Some names"
      "calls s' = calls s @
         [(Now start, Done), (Enter h, Done), (Cursor h, Done), (Join columns, Done),
          (ExecuteValues k (q (join '', '' names)) rows n, Done),
          (Now t1, Done), (Now t2, Done), (Close k, oc), (c, oc')]"
      "logged s' = logged s @ [m1 start t1, m2 start t2]"
      "c = Commit h \<or> c = Rollback h"
      "isl r \<or> oc = Done \<and> c = Commit h \<and> oc' = Done"
proof -
  obtain r1 s1 where c1: "now d s = (r1, s1)" by (cases "now d s")
  from c1 obtain start w where 1: "r1 = Inr start" "s1 = emit (Now start) Done w s"
    by (rule now_cases)
  define body where "body = (\<lambda>k.
           bind (join_columns columns) (\<lambda>joined.
           bind (call_unit (ExecuteValues k (q joined) rows n)
                   (rt_execute_values d k (q joined) rows n)) (\<lambda>_.
              bind (now d) (\<lambda>t1.
              bind (warning (m1 start t1)) (\<lambda>_.
              bind (now d) (\<lambda>t2.
              warning (m2 start t2) ::
                ('w, 'e, 'v) state \<Rightarrow> ('e exn + unit) \<times> ('w, 'e, 'v) state))))))"
  from 1 h have s1: "conn (self s1) = Some h" "calls s1 = calls s @ [(Now start, Done)]"
    "logged s1 = logged s" by (simp_all add: emit_def)
  from run c1 1(1) s1(1) have c2: "with_conn d (Some h) (\<lambda>h. with_cursor d h body) s1 = (r, s')"
    by (simp add: bind_def body_def)
  from c2 show ?thesis
  proof (cases rule: with_conn_cases)
    case (enter_failed e)
    with s1 show ?thesis
      by (intro not_inserted [of "[(Now start, Done), (Enter h, Raised (DriverError e))]"])
        simp_all
  next
    case (committed s2 a s3 oc')
    from committed(3) show ?thesis
    proof (cases rule: with_cursor_cases)
      case (no_cursor e)
      then show ?thesis by simp
    next
      case (cursor k s4 r2 s5 oc)
      then have oc: "oc = Done" "r2 = Inr a" by auto
      from cursor(3) show ?thesis unfolding body_def
      proof (cases rule: insert_body_cases)
        case join_failed
        with oc show ?thesis by simp
      next
        case (batch_failed names e)
        with oc show ?thesis by simp
      next
        case (inserted names t1 t2)
        with s1 committed cursor oc show ?thesis
          by (intro that(4) [of names start k t1 t2 oc "Commit h" oc']) auto
      qed
    qed
  next
    case (rolled_back s2 e2 s3 oc')
    from rolled_back(3) show ?thesis
    proof (cases rule: with_cursor_cases)
      case (no_cursor e)
      with s1 rolled_back show ?thesis
        by (intro not_inserted [of "[(Now start, Done), (Enter h, Done),
              (Cursor h, Raised (DriverError e)), (Rollback h, oc')]"]) simp_all
    next
      case (cursor k s4 r2 s5 oc)
      from cursor(3) show ?thesis unfolding body_def
      proof (cases rule: insert_body_cases)
        case join_failed
        with s1 rolled_back cursor show ?thesis
          by (intro that(2) [of start k oc oc']) simp_all
      next
        case (batch_failed names e)
        with s1 rolled_back cursor show ?thesis
          by (intro that(3) [of names start k e oc oc']) simp_all
      next
        case (inserted names t1 t2)
        with s1 rolled_back cursor show ?thesis
          by (intro that(4) [of names start k t1 t2 oc "Rollback h" oc']) simp_all
      qed
    qed
  qed
qed

lemma insert_dataframe_cases:
  fixes d :: "('w, 'e, 'v) runtime" and s s' :: "('w, 'e, 'v) state"
  assumes run: "insert_dataframe d df t sch s = (r, s')"
  obtains (not_inserted) "isl r" "logged s' = logged s"
      "batches (issued s s') = []" "\<forall>h. (Cursor h, Done) \<notin> set (issued s s')"
  | (join_failed) pre start h k oc oc' where "isl r" "logged s' = logged s"
      "strs (df_columns df) = None"
      "pre = [] \<or> pre = [(Connect, Opened h)]"
      "issued s s' = pre @
         [(Now start, Done), (Enter h, Done), (Cursor h, Done),
          (Join (df_columns df), Raised TypeError), (Close k, oc), (Rollback h, oc')]"
  | (batch_failed) pre start h k names e oc oc' where "isl r" "logged s' = logged s"
      "strs (df_columns df) = Some names"
      "pre = [] \<or> pre = [(Connect, Opened h)]"
      "issued s s' = pre @
         [(Now start, Done), (Enter h, Done), (Cursor h, Done),
          (Join (df_columns df), Done),
          (ExecuteValues k
             (insert_query (case sch of None \<Rightarrow> ''public'' | Some x \<Rightarrow> x) t
                (join '', '' names))
             (df_values df) 50000, Raised (DriverError e)),
          (Close k, oc), (Rollback h, oc')]"
  | (inserted) pre start h k names t1 t2 oc c oc' where
      "strs (df_columns df) = Some names"
      "pre = [] \<or> pre = [(Connect, Opened h)]"
      "issued s s' = pre @
         [(Now start, Done), (Enter h, Done), (Cursor h, Done),
          (Join (df_columns df), Done),
          (ExecuteValues k
             (insert_query (case sch of None \<Rightarrow> ''public'' | Some x \<Rightarrow> x) t
                (join '', '' names))
             (df_values df) 50000, Done),
          (Now t1, Done), (Now t2, Done), (Close k, oc), (c, oc')]"
      "logged s' = logged s @
         [inserted_message d t (length (df_values df)) (t1 - start),
          finished_message (t2 - start)]"
      "c = Commit h \<or> c = Rollback h"
      "isl r \<or> oc = Done \<and> c = Commit h \<and> oc' = Done"
proof -
  define q where "q = insert_query (case sch of None \<Rightarrow> ''public'' | Some x \<Rightarrow> x) t"
  define body where "body = (\<lambda>start k.
           bind (join_columns (df_columns df)) (\<lambda>joined.
           bind (call_unit (ExecuteValues k (q joined) (df_values df) 50000)
                   (rt_execute_values d k (q joined) (df_values df) 50000)) (\<lambda>_.
              bind (now d) (\<lambda>t1.
              bind (warning (inserted_message d t (length (df_values df)) (t1 - start))) (\<lambda>_.
              bind (now d) (\<lambda>t2.
              warning (finished_message (t2 - start)) ::
                ('w, 'e, 'v) state \<Rightarrow> ('e exn + unit) \<times> ('w, 'e, 'v) state))))))"
  have unfold: "insert_dataframe d df t sch =
     bind (check_and_reconnect d) (\<lambda>_.
     bind (now d) (\<lambda>start s.
       with_conn d (conn (self s)) (\<lambda>h. with_cursor d h (body start)) s))"
    unfolding body_def q_def by (rule insert_dataframe_unfold)
  obtain r0 s0 where c0: "check_and_reconnect d s = (r0, s0)"
    by (cases "check_and_reconnect d s")
  from c0 show ?thesis
  proof (cases rule: check_and_reconnect_cases)
    case (connect_failed e)
    with run unfold c0 have "r = Inl (DriverError e)" "s' = s0" by (simp_all add: bind_def)
    with connect_failed show ?thesis by (intro not_inserted) (simp_all add: issued_def)
  next
    case still_open
    from still_open(1) obtain h where h: "conn (self s) = Some h"
      using open_has_handle [of d s] by auto
    from run unfold c0 still_open have rest: "bind (now d) (\<lambda>start s.
       with_conn d (conn (self s)) (\<lambda>h. with_cursor d h (body start)) s) s = (r, s')"
      by (simp add: bind_def)
    from h rest [unfolded body_def] show ?thesis
    proof (cases rule: transaction_cases)
      case (not_inserted tr)
      then show ?thesis by (intro that(1)) (simp_all add: issued_def)
    next
      case (join_failed start k oc oc')
      then show ?thesis
        by (intro that(2) [of "[]" h start k oc oc']) (simp_all add: issued_def)
    next
      case (batch_failed start k names e oc oc')
      then show ?thesis
        by (intro that(3) [of names "[]" h start k e oc oc']) (simp_all add: issued_def q_def)
    next
      case (inserted start k names t1 t2 oc c oc')
      then show ?thesis
        by (intro that(4) [of names "[]" h start k t1 t2 oc c oc'])
          (simp_all add: issued_def q_def)
    qed
  next
    case (connected h)
    from run unfold c0 connected have rest: "bind (now d) (\<lambda>start s.
       with_conn d (conn (self s)) (\<lambda>h. with_cursor d h (body start)) s) s0 = (r, s')"
      by (simp add: bind_def)
    from connected(4) rest [unfolded body_def] show ?thesis
    proof (cases rule: transaction_cases)
      case (not_inserted tr)
      with connected show ?thesis by (intro that(1)) (simp_all add: issued_def)
    next
      case (join_failed start k oc oc')
      with connected show ?thesis
        by (intro that(2) [of "[(Connect, Opened h)]" h start k oc oc'])
          (simp_all add: issued_def)
    next
      case (batch_failed start k names e oc oc')
      with connected show ?thesis
        by (intro that(3) [of names "[(Connect, Opened h)]" h start k e oc oc'])
          (simp_all add: issued_def q_def)
    next
      case (inserted start k names t1 t2 oc c oc')
      with connected show ?thesis
        by (intro that(4) [of names "[(Connect, Opened h)]" h start k t1 t2 oc c oc'])
          (simp_all add: issued_def q_def)
    qed
  qed
qed





subsection \<open>The small runtime, run\<close>

lemmas demo_defs =
  run_def select_def select_with_columns_def execute_def insert_dataframe_def
  split_to_rows_columns_def check_and_reconnect_def connection_is_closed_def connect_def
  with_conn_def with_cursor_def description_names_def call_unit_def call_val_def emit_def
  bind_def now_def warning_def init_def fresh_def demo_def demo_world0_def demo_fresh_def
  insert_query_def join_columns_def demo_frame_def demo_unreachable_def

lemma demo_select:
  "run demo (Select ''SELECT 1 AS x'') demo_fresh =
     (Inr (Rows [[1]]),
      \<lparr>self = \<lparr>host = Inl ''localhost'', port = 5432, user = ''app'', password = ''secret'',
                database = ''shop'', conn = Some 0, is_reconnect = True, reconnect_number = 0\<rparr>,
       world = \<lparr>table_rows = 7, staged = 0, next_handle = 1, dead = [], clock = 0\<rparr>,
       calls = [(Connect, Opened 0), (Enter 0, Done), (Cursor 0, Done),
                (CurExecute 0 ''SELECT 1 AS x'', Done), (Description 0, Done),
                (Fetchall 0, Done), (Close 0, Done), (Commit 0, Done)],
       logged = []\<rparr>)"
  by (simp add: demo_defs)

lemma demo_connected_eq:
  "demo_connected =
      \<lparr>self = \<lparr>host = Inl ''localhost'', port = 5432, user = ''app'', password = ''secret'',
                database = ''shop'', conn = Some 0, is_reconnect = True, reconnect_number = 0\<rparr>,
       world = \<lparr>table_rows = 7, staged = 0, next_handle = 1, dead = [], clock = 0\<rparr>,
       calls = [(Connect, Opened 0), (Enter 0, Done), (Cursor 0, Done),
                (CurExecute 0 ''SELECT 1 AS x'', Done), (Description 0, Done),
                (Fetchall 0, Done), (Close 0, Done), (Commit 0, Done)],
       logged = []\<rparr>"
  by (simp add: demo_connected_def demo_select)

lemma demo_reexecute:
  "run demo (Execute ''SELECT 1 AS x'') demo_dropped =
     (Inr Nothing,
      \<lparr>self = \<lparr>host = Inl ''localhost'', port = 5432, user = ''app'', password = ''secret'',
                database = ''shop'', conn = Some 1, is_reconnect = True, reconnect_number = 1\<rparr>,
       world = \<lparr>table_rows = 7, staged = 0, next_handle = 2, dead = [0], clock = 0\<rparr>,
       calls = [(Connect, Opened 0), (Enter 0, Done), (Cursor 0, Done),
                (CurExecute 0 ''SELECT 1 AS x'', Done), (Description 0, Done),
                (Fetchall 0, Done), (Close 0, Done), (Commit 0, Done),
                (Connect, Opened 1), (Enter 1, Done), (Cursor 1, Done),
                (CurExecute 0 ''SELECT 1 AS x'', Done), (Close 0, Done), (Commit 1, Done)],
       logged = []\<rparr>)"
  by (simp add: demo_dropped_def demo_connected_eq) (simp add: demo_defs)

lemma demo_reconnected_eq:
  "demo_reconnected =
      \<lparr>self = \<lparr>host = Inl ''localhost'', port = 5432, user = ''app'', password = ''secret'',
                database = ''shop'', conn = Some 1, is_reconnect = True, reconnect_number = 1\<rparr>,
       world = \<lparr>table_rows = 7, staged = 0, next_handle = 2, dead = [0], clock = 0\<rparr>,
       calls = [(Connect, Opened 0), (Enter 0, Done), (Cursor 0, Done),
                (CurExecute 0 ''SELECT 1 AS x'', Done), (Description 0, Done),
                (Fetchall 0, Done), (Close 0, Done), (Commit 0, Done),
                (Connect, Opened 1), (Enter 1, Done), (Cursor 1, Done),
                (CurExecute 0 ''SELECT 1 AS x'', Done), (Close 0, Done), (Commit 1, Done)],
       logged = []\<rparr>"
  by (simp add: demo_reconnected_def demo_reexecute)

lemma demo_refused:
  "run demo (Execute ''SELECT 1 AS x'') demo_unreachable =
     (Inl (DriverError ''database does not exist''),
      \<lparr>self = \<lparr>host = Inl ''localhost'', port = 5432, user = ''app'', password = ''secret'',
                database = ''nowhere'', conn = None, is_reconnect = True,
                reconnect_number = 0\<rparr>,
       world = demo_world0,
       calls = [(Connect, Raised (DriverError ''database does not exist''))],
       logged = []\<rparr>)"
  by (simp add: demo_defs)

lemma demo_reject:
  "run demo (InsertDataframe (demo_frame [StrLabel ''a'', StrLabel ''c''] 2) ''events'' None) demo_fresh =
     (Inl (DriverError ''undefined column''),
      \<lparr>self = \<lparr>host = Inl ''localhost'', port = 5432, user = ''app'', password = ''secret'',
                database = ''shop'', conn = Some 0, is_reconnect = True, reconnect_number = 0\<rparr>,
       world = \<lparr>table_rows = 7, staged = 0, next_handle = 1, dead = [], clock = 1500000\<rparr>,
       calls = [(Connect, Opened 0), (Now 0, Done), (Enter 0, Done), (Cursor 0, Done),
                (Join [StrLabel ''a'', StrLabel ''c''], Done),
                (ExecuteValues 0 ''INSERT INTO public.events (a, c) VALUES %s''
                   (replicate 2 [1, 2]) 50000, Raised (DriverError ''undefined column'')),
                (Close 0, Done), (Rollback 0, Done)],
       logged = []\<rparr>)"
  by (simp add: demo_defs)

lemma demo_load:
  "insert_dataframe demo (demo_frame [StrLabel ''a'', StrLabel ''b''] 120000) ''events'' None demo_fresh =
     (Inr (),
      \<lparr>self = \<lparr>host = Inl ''localhost'', port = 5432, user = ''app'', password = ''secret'',
                database = ''shop'', conn = Some 0, is_reconnect = True, reconnect_number = 0\<rparr>,
       world = \<lparr>table_rows = 120007, staged = 0, next_handle = 1, dead = [],
                 clock = 4500000\<rparr>,
       calls = [(Connect, Opened 0), (Now 0, Done), (Enter 0, Done), (Cursor 0, Done),
                (Join [StrLabel ''a'', StrLabel ''b''], Done),
                (ExecuteValues 0 ''INSERT INTO public.events (a, b) VALUES %s''
                   (replicate 120000 [1, 2]) 50000, Done),
                (Now 1500000, Done), (Now 3000000, Done), (Close 0, Done), (Commit 0, Done)],
       logged = [inserted_message demo ''events'' 120000 1500000,
                 finished_message 3000000]\<rparr>)"
  by (simp add: demo_defs)



lemma demo_transactional: "transactional demo table_rows"
  by (simp add: transactional_def stable_def demo_def)

lemma demo_closed_is_final: "closed_is_final demo"
  by (simp add: closed_is_final_def stable_def commit_stable_def keeps_closed_def demo_def)

lemma issued_demo_fresh: "issued demo_fresh s' = calls s'"
  by (simp add: issued_def demo_fresh_def fresh_def)

lemma issued_demo_unreachable: "issued demo_unreachable s' = calls s'"
  by (simp add: issued_def demo_unreachable_def fresh_def)

lemma demo_rejected_calls:
  "calls demo_rejected =
      [(Connect, Opened 0), (Now 0, Done), (Enter 0, Done), (Cursor 0, Done),
       (Join [StrLabel ''a'', StrLabel ''c''], Done),
       (ExecuteValues 0 ''INSERT INTO public.events (a, c) VALUES %s''
          (replicate 2 [1, 2]) 50000, Raised (DriverError ''undefined column'')),
       (Close 0, Done), (Rollback 0, Done)]"
  "table_rows (world demo_rejected) = 7"
  by (simp_all add: demo_rejected_def demo_reject)

lemma demo_loaded_calls:
  "calls demo_loaded =
      [(Connect, Opened 0), (Now 0, Done), (Enter 0, Done), (Cursor 0, Done),
       (Join [StrLabel ''a'', StrLabel ''b''], Done),
       (ExecuteValues 0 ''INSERT INTO public.events (a, b) VALUES %s''
          (replicate 120000 [1, 2]) 50000, Done),
       (Now 1500000, Done), (Now 3000000, Done), (Close 0, Done), (Commit 0, Done)]"
  by (simp add: demo_loaded_def demo_load)

lemma demo_unname:
  "insert_dataframe demo (demo_frame [IntLabel 0, IntLabel 1] 2) ''events'' None demo_fresh =
     (Inl TypeError,
      \<lparr>self = \<lparr>host = Inl ''localhost'', port = 5432, user = ''app'', password = ''secret'',
                database = ''shop'', conn = Some 0, is_reconnect = True, reconnect_number = 0\<rparr>,
       world = \<lparr>table_rows = 7, staged = 0, next_handle = 1, dead = [], clock = 1500000\<rparr>,
       calls = [(Connect, Opened 0), (Now 0, Done), (Enter 0, Done), (Cursor 0, Done),
                (Join [IntLabel 0, IntLabel 1], Raised TypeError),
                (Close 0, Done), (Rollback 0, Done)],
       logged = []\<rparr>)"
  by (simp add: demo_defs)

lemma demo_unnamed_calls:
  "calls demo_unnamed =
      [(Connect, Opened 0), (Now 0, Done), (Enter 0, Done), (Cursor 0, Done),
       (Join [IntLabel 0, IntLabel 1], Raised TypeError), (Close 0, Done), (Rollback 0, Done)]"
  by (simp add: demo_unnamed_def demo_unname)

lemma demo_lose:
  "run flaky (Execute ''SELEC 1'') demo_connected =
     (Inl (DriverError ''connection already closed''),
      \<lparr>self = \<lparr>host = Inl ''localhost'', port = 5432, user = ''app'', password = ''secret'',
                database = ''shop'', conn = Some 0, is_reconnect = True, reconnect_number = 0\<rparr>,
       world = \<lparr>table_rows = 7, staged = 0, next_handle = 1, dead = [], clock = 0\<rparr>,
       calls = [(Connect, Opened 0), (Enter 0, Done), (Cursor 0, Done),
                (CurExecute 0 ''SELECT 1 AS x'', Done), (Description 0, Done),
                (Fetchall 0, Done), (Close 0, Done), (Commit 0, Done),
                (Enter 0, Done), (Cursor 0, Done),
                (CurExecute 0 ''SELEC 1'', Raised (DriverError ''syntax error'')),
                (Close 0, Done),
                (Rollback 0, Raised (DriverError ''connection already closed''))],
       logged = []\<rparr>)"
  by (simp add: demo_connected_eq) (simp add: demo_defs flaky_def)

lemma demo_lost_issued:
  "issued demo_connected demo_lost =
     [(Enter 0, Done), (Cursor 0, Done),
      (CurExecute 0 ''SELEC 1'', Raised (DriverError ''syntax error'')),
      (Close 0, Done), (Rollback 0, Raised (DriverError ''connection already closed''))]"
  by (simp add: demo_lost_def demo_lose issued_def) (simp add: demo_connected_eq)

lemma flaky_transactional: "transactional flaky table_rows"
  by (simp add: transactional_def stable_def flaky_def demo_def)

lemma demo_gave_up_eq:
  "demo_gave_up =
      \<lparr>self = \<lparr>host = Inl ''localhost'', port = 5432, user = ''app'', password = ''secret'',
                database = ''nowhere'', conn = None, is_reconnect = True,
                reconnect_number = 2\<rparr>,
       world = demo_world0,
       calls = [(Connect, Raised (DriverError ''database does not exist'')),
                (Connect, Raised (DriverError ''database does not exist'')),
                (Connect, Raised (DriverError ''database does not exist''))],
       logged = []\<rparr>"
  by (simp add: demo_gave_up_def demo_defs)

lemma demo_gave_up_reachable: "reachable demo E demo_gave_up"
proof -
  have "reachable demo E demo_unreachable"
    unfolding demo_unreachable_def by (rule reachable.created)
  then have "reachable demo E (snd (run demo (Select ''SELECT 1 AS x'') demo_unreachable))"
    by (rule reachable.called) (rule surjective_pairing)
  then have "reachable demo E
      (snd (run demo (Select ''SELECT 1 AS x'')
         (snd (run demo (Select ''SELECT 1 AS x'') demo_unreachable))))"
    by (rule reachable.called) (rule surjective_pairing)
  then show ?thesis
    unfolding demo_gave_up_def by (rule reachable.called) (rule surjective_pairing)
qed

lemma demo_reachable:
  assumes "E (world demo_connected) (world demo_dropped)"
  shows "reachable demo E demo_reconnected"
proof -
  have "reachable demo E demo_fresh"
    unfolding demo_fresh_def by (rule reachable.created)
  moreover have "run demo (Select ''SELECT 1 AS x'') demo_fresh = (Inr (Rows [[1]]), demo_connected)"
    by (simp add: demo_select demo_connected_eq)
  ultimately have "reachable demo E demo_connected"
    by (rule reachable.called)
  from reachable.drifted [OF this assms] have "reachable demo E demo_dropped"
    by (simp add: demo_dropped_def)
  moreover have "run demo (Execute ''SELECT 1 AS x'') demo_dropped = (Inr Nothing, demo_reconnected)"
    by (simp add: demo_reexecute demo_reconnected_eq)
  ultimately show ?thesis
    by (rule reachable.called)
qed

subsection \<open>The encoder writes JSON\<close>

































section \<open>The claims\<close>

text \<open>
  C1. On a freshly constructed object (connection absent, is\_reconnect false,
  reconnect\_number 0) the first call of any operation (select, select\_with\_columns,
  execute, insert\_dataframe) makes exactly one call of \<open>psycopg2.connect\<close>, sets
  is\_reconnect and leaves reconnect\_number at 0, whether the connection is
  established or not.
\<close>

theorem first_call_connects_once:
  assumes "self s = init h p u pw db" and "run d op s = (r, s')"
  shows "calls s' = calls s @ issued s s' \<and> connect_attempts (issued s s') = 1 \<and>
         is_reconnect (self s') \<and> reconnect_number (self s') = 0"
proof -
  from assms(1) have closed: "connection_is_closed d s"
    and start: "\<not> is_reconnect (self s)" "reconnect_number (self s) = 0"
    by (simp_all add: init_def connection_is_closed_def)
  from stable_trivial assms(2) show ?thesis
  proof (cases rule: run_cases)
    case (still_open tr)
    with closed show ?thesis by simp
  next
    case (connect_failed e)
    with start show ?thesis by (simp add: issued_def)
  next
    case (connected h tr)
    with start show ?thesis by (simp add: issued_def)
  qed
qed

theorem first_call_connects_once_witness:
  "self demo_fresh = init (Inl ''localhost'') 5432 ''app'' ''secret'' ''shop'' \<and>
   run demo (Select ''SELECT 1 AS x'') demo_fresh = (Inr (Rows [[1]]), demo_connected) \<and>
   connect_attempts (issued demo_fresh demo_connected) = 1 \<and>
   is_reconnect (self demo_connected) \<and> reconnect_number (self demo_connected) = 0"
proof -
  have start: "self demo_fresh = init (Inl ''localhost'') 5432 ''app'' ''secret'' ''shop''"
    by (simp add: demo_fresh_def fresh_def)
  have call: "run demo (Select ''SELECT 1 AS x'') demo_fresh = (Inr (Rows [[1]]), demo_connected)"
    by (simp add: demo_select demo_connected_eq)
  from first_call_connects_once [OF start call] start call show ?thesis by simp
qed

text \<open>
  C2. Once is\_reconnect is set, a call that finds the connection absent or closed
  makes exactly one call of \<open>psycopg2.connect\<close> and adds exactly 1 to
  reconnect\_number; a call that finds it open makes none and leaves the counter as
  it is.
\<close>

theorem reconnect_counts_once:
  assumes "is_reconnect (self s)" and "run d op s = (r, s')"
  shows "calls s' = calls s @ issued s s' \<and>
         (if connection_is_closed d s
          then connect_attempts (issued s s') = 1 \<and>
               reconnect_number (self s') = reconnect_number (self s) + 1
          else connect_attempts (issued s s') = 0 \<and>
               reconnect_number (self s') = reconnect_number (self s))"
  using stable_trivial assms(2)
proof (cases rule: run_cases)
  case (still_open tr)
  then show ?thesis by (simp add: issued_def)
next
  case (connect_failed e)
  with assms(1) show ?thesis by (simp add: issued_def)
next
  case (connected h tr)
  with assms(1) show ?thesis by (simp add: issued_def)
qed

theorem reconnect_counts_once_witness:
  "is_reconnect (self demo_dropped) \<and> connection_is_closed demo demo_dropped \<and>
   run demo (Execute ''SELECT 1 AS x'') demo_dropped = (Inr Nothing, demo_reconnected) \<and>
   connect_attempts (issued demo_dropped demo_reconnected) = 1 \<and>
   reconnect_number (self demo_dropped) = 0 \<and> reconnect_number (self demo_reconnected) = 1"
proof -
  have before: "is_reconnect (self demo_dropped)" "reconnect_number (self demo_dropped) = 0"
    by (simp_all add: demo_dropped_def demo_connected_eq)
  have closed: "connection_is_closed demo demo_dropped"
    by (simp add: demo_dropped_def demo_connected_eq connection_is_closed_def demo_def)
  have call: "run demo (Execute ''SELECT 1 AS x'') demo_dropped = (Inr Nothing, demo_reconnected)"
    by (simp add: demo_reexecute demo_reconnected_eq)
  from reconnect_counts_once [OF before(1) call] before closed call show ?thesis by simp
qed

text \<open>
  C3, as the code has it. For every operation nothing is caught or translated: the call
  ends in an exception exactly when one of its calls raised, and the exception the
  caller receives is the last one raised. When one call raised and no other, that is
  its exception; when the cursor's close or the rollback that follow a failure raise
  too, the caller receives their exception and not the first. When the call ends in an
  exception, no commit went through, an entered transaction was answered by a rollback
  (unless the exception is the one of the commit), and with a transactional library
  what is observed of the database is what it was before the call.
\<close>

theorem errors_surface_and_roll_back:
  assumes "transactional d obs" and "run d op s = (r, s')"
  shows "calls s' = calls s @ issued s s' \<and> surfaces r (issued s s') \<and>
         (\<forall>e. raised (issued s s') = [e] \<longrightarrow> r = Inl e) \<and>
         rolled_back r (issued s s') \<and> (isl r \<longrightarrow> obs (world s') = obs (world s))"
proof -
  from assms(1) have "stable d (\<lambda>w w'. obs w' = obs w)" by (simp add: transactional_def)
  from this assms(2)
  have main: "calls s' = calls s @ issued s s' \<and> surfaces r (issued s s') \<and>
         rolled_back r (issued s s') \<and> (isl r \<longrightarrow> obs (world s') = obs (world s))"
  proof (cases rule: run_cases)
    case (still_open tr)
    then show ?thesis by (simp add: issued_def)
  next
    case (connect_failed e)
    then show ?thesis by (simp add: issued_def surfaces_def rolled_back_def)
  next
    case (connected h tr)
    then show ?thesis by (cases r) (simp_all add: issued_def surfaces_def rolled_back_def)
  qed
  have "r = Inl e" if "raised (issued s s') = [e]" for e
  proof (cases r)
    case (Inl e')
    with main that show ?thesis by (simp add: surfaces_def)
  next
    case (Inr a)
    with main that show ?thesis by (simp add: surfaces_def)
  qed
  with main show ?thesis by blast
qed

theorem errors_surface_and_roll_back_witness:
  "transactional demo table_rows \<and>
   run demo (InsertDataframe (demo_frame [StrLabel ''a'', StrLabel ''c''] 2) ''events'' None) demo_fresh =
     (Inl (DriverError ''undefined column''), demo_rejected) \<and>
   raised (issued demo_fresh demo_rejected) = [DriverError ''undefined column''] \<and>
   (Rollback 0, Done) \<in> set (issued demo_fresh demo_rejected) \<and>
   surfaces (Inl (DriverError ''undefined column'') :: string exn + int result)
     (issued demo_fresh demo_rejected) \<and>
   rolled_back (Inl (DriverError ''undefined column'') :: string exn + int result)
     (issued demo_fresh demo_rejected) \<and>
   table_rows (world demo_fresh) = 7 \<and> table_rows (world demo_rejected) = 7"
proof -
  have call: "run demo (InsertDataframe (demo_frame [StrLabel ''a'', StrLabel ''c''] 2) ''events'' None) demo_fresh =
     (Inl (DriverError ''undefined column''), demo_rejected)"
    by (simp add: demo_reject demo_rejected_def)
  have tr: "issued demo_fresh demo_rejected =
      [(Connect, Opened 0), (Now 0, Done), (Enter 0, Done), (Cursor 0, Done),
       (Join [StrLabel ''a'', StrLabel ''c''], Done),
       (ExecuteValues 0 ''INSERT INTO public.events (a, c) VALUES %s''
          (replicate 2 [1, 2]) 50000, Raised (DriverError ''undefined column'')),
       (Close 0, Done), (Rollback 0, Done)]"
    by (simp add: issued_demo_fresh demo_rejected_calls)
  have before: "table_rows (world demo_fresh) = 7"
    by (simp add: demo_fresh_def fresh_def demo_world0_def)
  from errors_surface_and_roll_back [OF demo_transactional call] demo_transactional call before
  show ?thesis by (simp add: tr demo_rejected_calls)
qed

text \<open>
  C3 as stated fails when the cleanup raises. The statement is rejected with a syntax
  error, the rollback that follows finds the connection gone, and the caller receives
  the error of the rollback: the error of the statement, raised during the call, does
  not reach it. The library is transactional all the same.
\<close>

theorem statement_error_replaced_counterexample:
  "transactional flaky table_rows \<and>
   run flaky (Execute ''SELEC 1'') demo_connected =
     (Inl (DriverError ''connection already closed''), demo_lost) \<and>
   (CurExecute 0 ''SELEC 1'', Raised (DriverError ''syntax error'')) \<in>
     set (issued demo_connected demo_lost) \<and>
   raised (issued demo_connected demo_lost) =
     [DriverError ''syntax error'', DriverError ''connection already closed'']"
  by (simp add: flaky_transactional demo_lost_issued) (simp add: demo_lose demo_lost_def)

text \<open>
  C4, as the code has it. A call of insert\_dataframe on a frame whose column labels are
  all \<open>str\<close> hands the driver's batching function exactly one batch once it has a
  cursor, and none before: the statement
  \<open>INSERT INTO {schema}.{table} ({columns}) VALUES %s\<close> with the schema defaulting
  to \<open>public\<close> and the frame's columns joined by \<open>, \<close> in their order, the
  frame's rows, and the page size 50000. On a frame with a label that is not a
  \<open>str\<close> it hands over none.
\<close>

theorem bulk_insert_builds_one_statement:
  assumes "insert_dataframe d df table_name table_schema s = (r, s')"
  shows "batches (issued s s') =
           (case strs (df_columns df) of
              None \<Rightarrow> []
            | Some names \<Rightarrow>
                if \<exists>h. (Cursor h, Done) \<in> set (issued s s')
                then [(''INSERT INTO '' @
                       (case table_schema of None \<Rightarrow> ''public'' | Some x \<Rightarrow> x) @
                       ''.'' @ table_name @ '' ('' @ join '', '' names @ '') VALUES %s'',
                       df_values df, 50000)]
                else [])"
  using assms
proof (cases rule: insert_dataframe_cases)
  case not_inserted
  then show ?thesis by (simp split: option.splits)
next
  case (join_failed pre start h k oc oc')
  then show ?thesis by auto
next
  case (batch_failed pre start h k names e oc oc')
  then show ?thesis by (auto simp: insert_query_def)
next
  case (inserted pre start h k names t1 t2 oc c oc')
  then show ?thesis by (auto simp: insert_query_def)
qed

theorem bulk_insert_builds_one_statement_witness:
  "insert_dataframe demo (demo_frame [StrLabel ''a'', StrLabel ''b''] 120000) ''events'' None demo_fresh =
     (Inr (), demo_loaded) \<and>
   (Cursor 0, Done) \<in> set (issued demo_fresh demo_loaded) \<and>
   batches (issued demo_fresh demo_loaded) =
     [(''INSERT INTO public.events (a, b) VALUES %s'', replicate 120000 [1, 2], 50000)]"
proof -
  have call: "insert_dataframe demo (demo_frame [StrLabel ''a'', StrLabel ''b''] 120000) ''events'' None demo_fresh =
     (Inr (), demo_loaded)"
    by (simp add: demo_load demo_loaded_def)
  have cur: "(Cursor 0, Done) \<in> set (issued demo_fresh demo_loaded)"
    by (simp add: issued_demo_fresh demo_loaded_calls)
  then have "\<exists>h. (Cursor h, Done) \<in> set (issued demo_fresh demo_loaded)" ..
  with bulk_insert_builds_one_statement [OF call] call cur show ?thesis
    by (simp add: demo_frame_def)
qed

text \<open>
  C4 as stated fails on a frame built without column names, whose labels are the
  integers 0 and 1: the call obtains its cursor, \<open>', '.join(columns)\<close> raises
  \<open>TypeError\<close>, and no statement is built or handed to the driver.
\<close>

theorem bulk_insert_unnamed_columns_counterexample:
  "insert_dataframe demo (demo_frame [IntLabel 0, IntLabel 1] 2) ''events'' None demo_fresh =
     (Inl TypeError, demo_unnamed) \<and>
   (Cursor 0, Done) \<in> set (issued demo_fresh demo_unnamed) \<and>
   batches (issued demo_fresh demo_unnamed) = []"
  by (simp add: issued_demo_fresh demo_unnamed_calls) (simp add: demo_unname demo_unnamed_def)




text \<open>
  C6. Every call makes at most one connection attempt, the one of the check at its
  start. When that attempt raises, the call ends with that very exception and has
  issued nothing else: no second attempt, and the statement is not tried.
\<close>

theorem one_attempt_no_retry:
  assumes "run d op s = (r, s')"
  shows "calls s' = calls s @ issued s s' \<and> connect_attempts (issued s s') \<le> 1 \<and>
         (\<forall>e. (Connect, Raised e) \<in> set (issued s s') \<longrightarrow>
              r = Inl e \<and> issued s s' = [(Connect, Raised e)])"
  using stable_trivial assms
proof (cases rule: run_cases)
  case (still_open tr)
  have "(Connect, oc) \<notin> set tr" for oc
    using still_open(4) by (induction tr) (auto split: if_splits)
  with still_open show ?thesis by (simp add: issued_def)
next
  case (connect_failed e)
  then show ?thesis by (simp add: issued_def)
next
  case (connected h tr)
  have "(Connect, oc) \<notin> set tr" for oc
    using connected(3) by (induction tr) (auto split: if_splits)
  with connected show ?thesis by (simp add: issued_def)
qed

theorem one_attempt_no_retry_witness:
  "run demo (Execute ''SELECT 1 AS x'') demo_unreachable =
     (Inl (DriverError ''database does not exist''),
      snd (run demo (Execute ''SELECT 1 AS x'') demo_unreachable)) \<and>
   issued demo_unreachable (snd (run demo (Execute ''SELECT 1 AS x'') demo_unreachable)) =
     [(Connect, Raised (DriverError ''database does not exist''))]"
proof -
  have call: "run demo (Execute ''SELECT 1 AS x'') demo_unreachable =
     (Inl (DriverError ''database does not exist''),
      snd (run demo (Execute ''SELECT 1 AS x'') demo_unreachable))"
    by (simp add: demo_refused)
  have "(Connect, Raised (DriverError ''database does not exist'')) \<in>
      set (issued demo_unreachable (snd (run demo (Execute ''SELECT 1 AS x'') demo_unreachable)))"
    by (simp add: issued_demo_unreachable demo_refused)
  with one_attempt_no_retry [OF call] call show ?thesis by blast
qed

text \<open>
  C7. With a library whose closed connections stay closed, in every reachable state the
  handle the object holds is one it opened, and every other handle it ever opened is
  closed: at most one of its connections is live. A call opens a connection only when
  the check found the current one absent or closed, and otherwise keeps the handle.
\<close>

theorem one_handle_at_a_time:
  assumes final: "closed_is_final d" and reach: "reachable d (keeps_closed d) s"
  shows "(\<forall>h. conn (self s) = Some h \<longrightarrow> h \<in> set (opened (calls s))) \<and>
         (\<forall>h \<in> set (opened (calls s)). conn (self s) \<noteq> Some h \<longrightarrow> rt_closed d h (world s)) \<and>
         (\<forall>op r s'. run d op s = (r, s') \<longrightarrow>
            (0 < connect_attempts (issued s s') \<longrightarrow> connection_is_closed d s) \<and>
            (\<not> connection_is_closed d s \<longrightarrow> conn (self s') = conn (self s)))"
proof -
  from final have R: "stable d (keeps_closed d)" and C: "commit_stable d (keeps_closed d)"
    by (simp_all add: closed_is_final_def)
  have step: "(0 < connect_attempts (issued s s') \<longrightarrow> connection_is_closed d s) \<and>
            (\<not> connection_is_closed d s \<longrightarrow> conn (self s') = conn (self s))"
    if "run d op s = (r, s')" for op r s' and s :: "('a, 'b, 'c) state"
    using stable_trivial that
  proof (cases rule: run_cases)
    case (still_open tr)
    then show ?thesis by (simp add: issued_def)
  next
    case (connect_failed e)
    then show ?thesis by simp
  next
    case (connected h tr)
    then show ?thesis by simp
  qed
  have inv: "(\<forall>h. conn (self s) = Some h \<longrightarrow> h \<in> set (opened (calls s))) \<and>
         (\<forall>h \<in> set (opened (calls s)). conn (self s) \<noteq> Some h \<longrightarrow> rt_closed d h (world s))"
    using reach
  proof (induction rule: reachable.induct)
    case (created h p u pw db w)
    show ?case by (simp add: fresh_def init_def)
  next
    case (called s op r s')
    from R called(2) show ?case
    proof (cases rule: run_cases)
      case (still_open tr)
      from still_open(7) C have "keeps_closed d (world s) (world s')" by simp
      with called.IH still_open show ?thesis
        by (simp add: opened_none keeps_closed_def)
    next
      case (connect_failed e)
      with called.IH show ?thesis by (simp add: keeps_closed_def)
    next
      case (connected h tr)
      from connected(9) C have keep: "keeps_closed d (world s) (world s')" by simp
      have "rt_closed d h0 (world s)" if "h0 \<in> set (opened (calls s))" for h0
      proof (cases "conn (self s) = Some h0")
        case True
        with connected(1) show ?thesis by (simp add: connection_is_closed_def)
      next
        case False
        with called.IH that show ?thesis by simp
      qed
      with keep have "rt_closed d h0 (world s')" if "h0 \<in> set (opened (calls s))" for h0
        using that by (simp add: keeps_closed_def)
      with connected show ?thesis by (auto simp: opened_none)
    qed
  next
    case (drifted s w)
    then show ?case by (simp add: keeps_closed_def)
  qed
  from inv step show ?thesis by blast
qed

theorem one_handle_at_a_time_witness:
  "closed_is_final demo \<and> reachable demo (keeps_closed demo) demo_reconnected \<and>
   opened (calls demo_reconnected) = [0, 1] \<and> conn (self demo_reconnected) = Some 1 \<and>
   rt_closed demo 0 (world demo_reconnected)"
proof -
  have "keeps_closed demo (world demo_connected) (world demo_dropped)"
    by (simp add: keeps_closed_def demo_dropped_def demo_connected_eq demo_def)
  then have reach: "reachable demo (keeps_closed demo) demo_reconnected"
    by (rule demo_reachable)
  have ops: "opened (calls demo_reconnected) = [0, 1]" "conn (self demo_reconnected) = Some 1"
    by (simp_all add: demo_reconnected_eq)
  from one_handle_at_a_time [OF demo_closed_is_final reach] ops
  have "rt_closed demo 0 (world demo_reconnected)" by simp
  with demo_closed_is_final reach ops show ?thesis by simp
qed

text \<open>
  C8. For every statement and every state, \<open>select\<close> returns what
  \<open>select_with_columns\<close> returns with the column names discarded, raises what it
  raises, and leaves the same state.
\<close>

theorem select_is_query_rows: "select d statement s = query_rows d statement s"
  by (simp add: select_def query_rows_def bind_def split: prod.splits sum.splits)



text \<open>
  C10, as the code has it. In every state reachable from a fresh object,
  reconnect\_number is 0 as long as is\_reconnect is false, and the number of calls of
  \<open>psycopg2.connect\<close> made so far, whether they returned a connection or raised, is
  reconnect\_number, plus one once is\_reconnect is set: the counter counts the
  connection attempts after the first, not the connections opened.
\<close>

theorem reconnect_number_counts_later_connects:
  assumes "reachable d E s"
  shows "(\<not> is_reconnect (self s) \<longrightarrow> reconnect_number (self s) = 0) \<and>
         int (connect_attempts (calls s)) =
           reconnect_number (self s) + (if is_reconnect (self s) then 1 else 0)"
  using assms
proof (induction rule: reachable.induct)
  case (created h p u pw db w)
  show ?case by (simp add: fresh_def init_def)
next
  case (called s op r s')
  from stable_trivial called(2) show ?case
  proof (cases rule: run_cases)
    case (still_open tr)
    with called.IH show ?thesis by simp
  next
    case (connect_failed e)
    with called.IH show ?thesis by (simp split: if_splits)
  next
    case (connected h tr)
    with called.IH show ?thesis by (simp split: if_splits)
  qed
next
  case (drifted s w)
  then show ?case by simp
qed

theorem reconnect_number_counts_later_connects_witness:
  "reachable demo (\<lambda>_ _. True) demo_reconnected \<and>
   is_reconnect (self demo_reconnected) \<and> reconnect_number (self demo_reconnected) = 1 \<and>
   connect_attempts (calls demo_reconnected) = 2"
proof -
  have reach: "reachable demo (\<lambda>_ _. True) demo_reconnected"
    by (rule demo_reachable) simp
  have "is_reconnect (self demo_reconnected)" "connect_attempts (calls demo_reconnected) = 2"
    by (simp_all add: demo_reconnected_eq)
  with reconnect_number_counts_later_connects [OF reach] reach show ?thesis by simp
qed

text \<open>
  C10 as stated fails on an object that never gets a connection: after three calls
  that each fail to connect, with nothing happening in between, reconnect\_number is
  2 although the object holds no connection and none has ever been opened.
\<close>

theorem reconnect_number_without_connection_counterexample:
  "reachable demo (=) demo_gave_up \<and>
   reconnect_number (self demo_gave_up) = 2 \<and>
   conn (self demo_gave_up) = None \<and>
   opened (calls demo_gave_up) = []"
  by (simp add: demo_gave_up_reachable) (simp add: demo_gave_up_eq)

end
